theory Spec2Isabelle
  imports Complex_Main "HOL-Library.Char_ord" "HOL-Library.List_Lexorder" "HOL-Library.Sublist"
    "HOL-Library.Multiset" "HOL-Library.Log_Nat"
begin

section \<open>Text\<close>

text \<open>
  Python strings are sequences of code points. Here a string is a \<^typ>\<open>string\<close> whose
  characters are the code points U+0000 to U+00FF (Latin-1), which covers every literal of
  the sources: the affirmative \<open>Si\<close> is \<open>S\<close> followed by U+00ED (i with acute), and
  \<open>Publico\<close> has U+00FA (u with acute) as its second character. Strings are ordered as
  Python orders them, lexicographically by code point.
\<close>

definition No_informado :: string where
  "No_informado = ''No informado''"

definition Si :: string where
  "Si = [CHR ''S'', CHR 0xED]"

definition Publico :: string where
  "Publico = [CHR ''P'', CHR 0xFA, CHR ''b'', CHR ''l'', CHR ''i'', CHR ''c'', CHR ''o'']"

text \<open>\<open>needle in s\<close>: \<open>needle\<close> occurs in \<open>s\<close> as a contiguous substring.\<close>

fun str_in :: "string \<Rightarrow> string \<Rightarrow> bool" where
  "str_in needle [] = (needle = [])"
| "str_in needle (c # cs) = (prefix needle (c # cs) \<or> str_in needle cs)"

text \<open>
  \<open>str.strip()\<close> removes leading and trailing whitespace; the whitespace code points
  below U+0100 are 9 to 13, 28 to 32, 133 and 160.
\<close>

definition isspace :: "char \<Rightarrow> bool" where
  "isspace c = ((of_char c :: nat) \<in> {9, 10, 11, 12, 13, 28, 29, 30, 31, 32, 133, 160})"

definition strip :: "string \<Rightarrow> string" where
  "strip s = rev (dropWhile isspace (rev (dropWhile isspace s)))"

text \<open>
  Lower case of one code point (the simple lower-case mapping on U+0000 to U+00FF), and of a
  string. A regular expression compiled with \<open>re.IGNORECASE\<close> matches a literal
  character of the pattern against a character of the text when their lower cases agree.
\<close>

definition lower_char :: "char \<Rightarrow> char" where
  "lower_char c =
     (let n = (of_char c :: nat)
      in if (65 \<le> n \<and> n \<le> 90) \<or> (192 \<le> n \<and> n \<le> 222 \<and> n \<noteq> 215)
         then char_of (n + 32) else c)"

definition lower :: "string \<Rightarrow> string" where
  "lower s = map lower_char s"

section \<open>Data frames\<close>

text \<open>
  A column of a \<open>pandas.DataFrame\<close> as \<open>read_csv\<close> produces it is either of dtype
  \<open>object\<close>, holding text or a missing value (NaN) in each row, or of a numeric dtype,
  holding a number or NaN. A data frame has a row index (the row labels, which filtering
  keeps) and its columns in order, each under its label.

  The operations below are those of a frame whose column labels are pairwise distinct, as
  \<open>read_csv\<close> makes them, and whose columns all have the length of the index
  (\<open>wf_dataset\<close>).
\<close>

datatype column = ObjectCol "string option list" | NumericCol "rat option list"

datatype cell = Str string | Num rat

record dataset =
  index :: "nat list"
  columns :: "(string \<times> column) list"

datatype error = AttributeError | ValueError | TypeError | KeyError | RequestException

fun col_len :: "column \<Rightarrow> nat" where
  "col_len (ObjectCol vs) = length vs"
| "col_len (NumericCol vs) = length vs"

definition col_names :: "dataset \<Rightarrow> string list" where
  "col_names df = map fst (columns df)"

definition wf_dataset :: "dataset \<Rightarrow> bool" where
  "wf_dataset df =
     (distinct (col_names df) \<and> list_all (\<lambda>(n, c). col_len c = length (index df)) (columns df))"

text \<open>\<open>len(df)\<close>, \<open>df.empty\<close> (some axis has length zero), \<open>df[col]\<close> for a label
  that is present.\<close>

definition len :: "dataset \<Rightarrow> nat" where
  "len df = length (index df)"

definition empty_df :: "dataset \<Rightarrow> bool" where
  "empty_df df = (index df = [] \<or> columns df = [])"

definition get_column :: "dataset \<Rightarrow> string \<Rightarrow> column option" where
  "get_column df col = map_of (columns df) col"

text \<open>The values of a column that are present, in row order (\<open>dropna\<close>).\<close>

primrec dropna :: "'a option list \<Rightarrow> 'a list" where
  "dropna [] = []"
| "dropna (v # vs) = (case v of None \<Rightarrow> dropna vs | Some x \<Rightarrow> x # dropna vs)"

fun isna_count :: "column \<Rightarrow> nat" where
  "isna_count (ObjectCol vs) = length (filter (\<lambda>v. v = None) vs)"
| "isna_count (NumericCol vs) = length (filter (\<lambda>v. v = None) vs)"

section \<open>Aggregation\<close>

text \<open>
  \<open>df.groupby(col).size()\<close>: one group for each distinct value of the column that is
  present, in ascending order of the value, with the number of rows of the group. Rows whose
  value is missing belong to no group (\<open>dropna=True\<close> is the default of \<open>groupby\<close>).
\<close>

definition group_sizes :: "('a :: linorder) option list \<Rightarrow> ('a \<times> nat) list" where
  "group_sizes vs =
     (let present = dropna vs
      in map (\<lambda>k. (k, count_list present k)) (sort (remdups present)))"

fun groupby_size :: "column \<Rightarrow> (cell \<times> nat) list" where
  "groupby_size (ObjectCol vs) = map (\<lambda>(k, n). (Str k, n)) (group_sizes vs)"
| "groupby_size (NumericCol vs) = map (\<lambda>(k, n). (Num k, n)) (group_sizes vs)"

text \<open>
  The result of an aggregation: a frame of two columns, the category and its count
  \<open>cantidad\<close>, given by its two labels and its rows in order.
\<close>

record agg_table =
  labels :: "string list"
  rows :: "(cell \<times> nat) list"

text \<open>
  \<open>sort_values("cantidad", ascending=...)\<close>. The descending order is computed by pandas
  as the ascending order of the reversed rows, reversed. The sort that pandas uses by default
  is not stable: among rows of equal count the code may give another order than the one
  here, which is that of a stable sort. No statement below depends on the order among rows of
  equal count.
\<close>

definition sort_values :: "bool \<Rightarrow> (cell \<times> nat) list \<Rightarrow> (cell \<times> nat) list" where
  "sort_values ascending rs =
     (if ascending then sort_key snd rs else rev (sort_key snd (rev rs)))"

text \<open>
  \<open>df.groupby(col).size().reset_index(name="cantidad")\<close> makes the group values a
  column labelled \<open>col\<close> beside the new column \<open>cantidad\<close>; it raises \<open>ValueError\<close>
  when \<open>col\<close> is itself \<open>cantidad\<close>, as the label would occur twice.
\<close>

definition group_counts :: "dataset \<Rightarrow> string \<Rightarrow> error + agg_table" where
  "group_counts df col =
     (case get_column df col of
        None \<Rightarrow> Inl KeyError
      | Some c \<Rightarrow>
          if col = ''cantidad'' then Inl ValueError
          else Inr \<lparr>labels = [col, ''cantidad''], rows = groupby_size c\<rparr>)"

definition agg_by_region :: "dataset \<Rightarrow> string \<Rightarrow> error + agg_table" where
  "agg_by_region df region_col =
     (if region_col \<notin> set (col_names df) then Inr \<lparr>labels = [''region'', ''cantidad''], rows = []\<rparr>
      else case group_counts df region_col of
             Inl e \<Rightarrow> Inl e
           | Inr counts \<Rightarrow>
               Inr \<lparr>labels = [''region'', ''cantidad''], rows = sort_values False (rows counts)\<rparr>)"

definition agg_by_tipo_establecimiento :: "dataset \<Rightarrow> string \<Rightarrow> error + agg_table" where
  "agg_by_tipo_establecimiento df tipo_col =
     (if tipo_col \<notin> set (col_names df) then Inr \<lparr>labels = [''tipo'', ''cantidad''], rows = []\<rparr>
      else case group_counts df tipo_col of
             Inl e \<Rightarrow> Inl e
           | Inr counts \<Rightarrow>
               Inr \<lparr>labels = [''tipo'', ''cantidad''], rows = sort_values False (rows counts)\<rparr>)"

definition agg_by_dependencia :: "dataset \<Rightarrow> string \<Rightarrow> error + agg_table" where
  "agg_by_dependencia df dep_col =
     (if dep_col \<notin> set (col_names df)
      then Inr \<lparr>labels = [''dependencia'', ''cantidad''], rows = []\<rparr>
      else case group_counts df dep_col of
             Inl e \<Rightarrow> Inl e
           | Inr counts \<Rightarrow>
               Inr \<lparr>labels = [''dependencia'', ''cantidad''],
                    rows = sort_values False (rows counts)\<rparr>)"

text \<open>
  \<open>tail(n)\<close>: the last \<open>n\<close> rows; for a negative \<open>n\<close>, all rows but the first
  \<open>-n\<close>.
\<close>

definition tail :: "int \<Rightarrow> 'a list \<Rightarrow> 'a list" where
  "tail n xs =
     (if n = 0 then []
      else if 0 < n then drop (length xs - nat n) xs
      else drop (nat (- n)) xs)"

text \<open>
  The table that \<open>plot_top_comunas\<close> draws: none when the frame has no column
  \<open>ComunaGlosa\<close> or is empty (the chart then shows a placeholder), otherwise the commune
  counts in ascending order, cut to the last \<open>top_n\<close>.
\<close>

definition plot_top_comunas_counts :: "dataset \<Rightarrow> int \<Rightarrow> error + agg_table option" where
  "plot_top_comunas_counts df top_n =
     (if ''ComunaGlosa'' \<notin> set (col_names df) \<or> empty_df df then Inr None
      else case group_counts df ''ComunaGlosa'' of
             Inl e \<Rightarrow> Inl e
           | Inr counts \<Rightarrow>
               Inr (Some (counts\<lparr>rows := tail top_n (sort_values True (rows counts))\<rparr>)))"

section \<open>Cleaning\<close>

text \<open>
  \<open>fillna(value)\<close> on a column of text (and on a numeric column in which no value is
  missing, which it leaves as it is), and \<open>pd.to_numeric(column, errors="coerce")\<close>: each
  value that is present is read as a number, and a value that cannot be read becomes NaN.
  How pandas reads one text value as a number is library code; it is the parameter
  \<open>parse\<close>, with \<open>None\<close> for a text that is no number.
\<close>

fun is_object :: "column \<Rightarrow> bool" where
  "is_object (ObjectCol vs) = True"
| "is_object (NumericCol vs) = False"

fun fillna :: "string \<Rightarrow> column \<Rightarrow> column" where
  "fillna v (ObjectCol vs) = ObjectCol (map (\<lambda>x. case x of None \<Rightarrow> Some v | Some s \<Rightarrow> Some s) vs)"
| "fillna v (NumericCol vs) = NumericCol vs"

fun to_numeric :: "(string \<Rightarrow> rat option) \<Rightarrow> column \<Rightarrow> column" where
  "to_numeric parse (ObjectCol vs) =
     NumericCol (map (\<lambda>x. case x of None \<Rightarrow> None | Some s \<Rightarrow> parse s) vs)"
| "to_numeric parse (NumericCol vs) = NumericCol vs"

text \<open>
  Trimming can make two labels equal, and a frame may hold several columns under one label.
  pandas then works as follows, and so does the model. \<open>df[keys]\<close> takes, for each key
  in turn, all the columns under it, so that the selection \<open>df[text_cols]\<close> also holds the
  numeric columns that share a label with a column of text. \<open>fillna\<close> on the selection
  writes the text into such a numeric column where a value is missing; the column then
  holds text beside numbers (\<open>Mixed\<close>), which is none of the two kinds of column of a
  \<open>dataset\<close>.
\<close>

datatype content = Plain column | Mixed "cell list"

fun fillna_any :: "string \<Rightarrow> column \<Rightarrow> content" where
  "fillna_any v (ObjectCol vs) = Plain (fillna v (ObjectCol vs))"
| "fillna_any v (NumericCol vs) =
     (if None \<in> set vs
      then Mixed (map (\<lambda>x. case x of None \<Rightarrow> Str v | Some r \<Rightarrow> Num r) vs)
      else Plain (NumericCol vs))"

fun dtype_object :: "content \<Rightarrow> bool" where
  "dtype_object (Plain c) = is_object c"
| "dtype_object (Mixed xs) = True"

fun to_numeric_any :: "(string \<Rightarrow> rat option) \<Rightarrow> content \<Rightarrow> content" where
  "to_numeric_any parse (Plain c) = Plain (to_numeric parse c)"
| "to_numeric_any parse (Mixed xs) =
     Plain (NumericCol (map (\<lambda>x. case x of Str s \<Rightarrow> parse s | Num r \<Rightarrow> Some r) xs))"

definition under :: "string \<Rightarrow> (string \<times> 'a) list \<Rightarrow> (string \<times> 'a) list" where
  "under k cols = filter (\<lambda>(n, c). n = k) cols"

definition getitem_list :: "(string \<times> 'a) list \<Rightarrow> string list \<Rightarrow> (string \<times> 'a) list" where
  "getitem_list cols keys = concat (map (\<lambda>k. under k cols) keys)"

text \<open>
  \<open>df[k] = piece\<close>, where \<open>piece\<close> is what \<open>value[k2]\<close> gives: one column (a
  \<open>Series\<close>), which is put under the label \<open>k\<close>, or several columns (a
  \<open>DataFrame\<close>), which are put in the places of the columns under \<open>k\<close>, one by one,
  when there are as many; otherwise pandas raises \<open>ValueError\<close> (\<open>Columns must be same
  length as key\<close>).
\<close>

fun isetitem :: "string \<Rightarrow> 'a list \<Rightarrow> (string \<times> 'a) list \<Rightarrow> (string \<times> 'a) list" where
  "isetitem k ps [] = []"
| "isetitem k [] ((n, old) # cols) = (n, old) # cols"
| "isetitem k (p # ps) ((n, old) # cols) =
     (if n = k then (n, p) # isetitem k ps cols else (n, old) # isetitem k (p # ps) cols)"

definition setitem ::
  "(string \<times> content) list \<Rightarrow> string \<Rightarrow> content list \<Rightarrow> error + (string \<times> content) list" where
  "setitem cols k piece =
     (case piece of
        [s] \<Rightarrow> Inr (map (\<lambda>(n, old). if n = k then (n, s) else (n, old)) cols)
      | _ \<Rightarrow>
          if length (under k cols) \<noteq> length piece then Inl ValueError
          else Inr (isetitem k piece cols))"

text \<open>
  \<open>df[keys] = value\<close> for a frame \<open>value\<close>: pandas runs
  \<open>for k1, k2 in zip(keys, value.columns): df[k1] = value[k2]\<close>. The pairs are given;
  \<open>val\<close> is the frame \<open>value\<close>.
\<close>

fun setitem_array ::
  "(string \<times> content) list \<Rightarrow> (string \<times> string) list \<Rightarrow> (string \<times> content) list \<Rightarrow>
     error + (string \<times> content) list" where
  "setitem_array val [] cols = Inr cols"
| "setitem_array val ((k1, k2) # pairs) cols =
     (case setitem cols k1 (map snd (under k2 val)) of
        Inl e \<Rightarrow> Inl e
      | Inr cols' \<Rightarrow> setitem_array val pairs cols')"

text \<open>
  The loop of \<open>clean_dataframe\<close> over the labels of the frame. Under a label that
  several columns have, \<open>df[col]\<close> is a frame, which has no \<open>dtype\<close>: Python raises
  \<open>AttributeError\<close>, when the label contains \<open>Codigo\<close> and \<open>df[col].dtype\<close> is
  evaluated.
\<close>

fun coerce_codigo ::
  "(string \<Rightarrow> rat option) \<Rightarrow> string list \<Rightarrow> (string \<times> content) list \<Rightarrow>
     error + (string \<times> content) list" where
  "coerce_codigo parse [] cols = Inr cols"
| "coerce_codigo parse (col # rest) cols =
     (if str_in ''Codigo'' col
      then (case under col cols of
              [(n, c)] \<Rightarrow>
                if dtype_object c
                then coerce_codigo parse rest
                       (map (\<lambda>(n, old). if n = col then (n, to_numeric_any parse c) else (n, old))
                          cols)
                else coerce_codigo parse rest cols
            | _ \<Rightarrow> Inl AttributeError)
      else coerce_codigo parse rest cols)"

text \<open>
  What \<open>clean_dataframe\<close> does: it returns a frame, or it raises, or it returns a frame
  with a column of text beside numbers, which is outside the frames of this model
  (\<open>Returns_mixed\<close>).
\<close>

datatype cleaned = Returns dataset | Raised error | Returns_mixed

fun plain_columns :: "(string \<times> content) list \<Rightarrow> (string \<times> column) list option" where
  "plain_columns [] = Some []"
| "plain_columns ((n, Plain c) # cols) = map_option ((#) (n, c)) (plain_columns cols)"
| "plain_columns ((n, Mixed xs) # cols) = None"

definition clean_dataframe :: "(string \<Rightarrow> rat option) \<Rightarrow> dataset \<Rightarrow> cleaned" where
  "clean_dataframe parse df =
     (let cols1 = map (\<lambda>(n, c). (strip n, c)) (columns df);
          text_cols = map fst (filter (\<lambda>(n, c). is_object c) cols1);
          val = map (\<lambda>(n, c). (n, fillna_any No_informado c)) (getitem_list cols1 text_cols)
      in case setitem_array val (zip text_cols (map fst val))
                (map (\<lambda>(n, c). (n, Plain c)) cols1) of
           Inl e \<Rightarrow> Raised e
         | Inr cols2 \<Rightarrow>
             (case coerce_codigo parse (map fst cols2) cols2 of
                Inl e \<Rightarrow> Raised e
              | Inr cols3 \<Rightarrow>
                  (case plain_columns cols3 of
                     None \<Rightarrow> Returns_mixed
                   | Some cols \<Rightarrow> Returns \<lparr>index = index df, columns = cols\<rparr>)))"

text \<open>
  One reader of numbers, for plain decimal digit strings such as \<open>"13"\<close>; it stands for
  \<open>parse\<close> where a concrete frame is cleaned.
\<close>

definition digit_of :: "char \<Rightarrow> nat option" where
  "digit_of c =
     (let n = (of_char c :: nat) in if 48 \<le> n \<and> n \<le> 57 then Some (n - 48) else None)"

fun digits_value :: "nat \<Rightarrow> string \<Rightarrow> nat option" where
  "digits_value acc [] = Some acc"
| "digits_value acc (c # cs) =
     (case digit_of c of None \<Rightarrow> None | Some d \<Rightarrow> digits_value (10 * acc + d) cs)"

definition parse_digits :: "string \<Rightarrow> rat option" where
  "parse_digits s = (if s = [] then None else map_option of_nat (digits_value 0 s))"

section \<open>Filtering\<close>

text \<open>
  \<open>df[col] == value\<close> for a text \<open>value\<close>: one truth value for each row. A missing
  value and a number are not equal to any text. \<open>df[mask].copy()\<close> keeps the rows, with
  their labels, at which the mask is true.
\<close>

fun eq_mask :: "column \<Rightarrow> string \<Rightarrow> bool list" where
  "eq_mask (ObjectCol vs) value = map (\<lambda>v. v = Some value) vs"
| "eq_mask (NumericCol vs) value = map (\<lambda>v. False) vs"

definition select :: "bool list \<Rightarrow> 'a list \<Rightarrow> 'a list" where
  "select keep xs = map snd (filter fst (zip keep xs))"

fun select_col :: "bool list \<Rightarrow> column \<Rightarrow> column" where
  "select_col keep (ObjectCol vs) = ObjectCol (select keep vs)"
| "select_col keep (NumericCol vs) = NumericCol (select keep vs)"

definition take_rows :: "bool list \<Rightarrow> dataset \<Rightarrow> dataset" where
  "take_rows keep df =
     \<lparr>index = select keep (index df),
      columns = map (\<lambda>(n, c). (n, select_col keep c)) (columns df)\<rparr>"

definition filter_by_region :: "dataset \<Rightarrow> string \<Rightarrow> string \<Rightarrow> dataset" where
  "filter_by_region df region region_col =
     (if region = ''Todas'' \<or> region_col \<notin> set (col_names df) then df
      else case get_column df region_col of
             None \<Rightarrow> df
           | Some c \<Rightarrow> take_rows (eq_mask c region) df)"

definition filter_by_tipo :: "dataset \<Rightarrow> string \<Rightarrow> string \<Rightarrow> dataset" where
  "filter_by_tipo df tipo tipo_col =
     (if tipo = ''Todos'' \<or> tipo_col \<notin> set (col_names df) then df
      else case get_column df tipo_col of
             None \<Rightarrow> df
           | Some c \<Rightarrow> take_rows (eq_mask c tipo) df)"

subsection \<open>Filtering, on objects\<close>

text \<open>
  A data frame is an object: a caller holds a reference to it, and two references may be to
  one frame. The store lists the frames that exist, a reference is a position in it, and a
  new frame is put at the end. The two filters again, now telling which object they return:
  their argument itself, by \<open>return df\<close>, or the new frame that \<open>.copy()\<close> makes.
  Neither assigns to any frame. A reference to no frame does not occur in Python; the
  functions give \<open>None\<close> for it.
\<close>

type_synonym store = "dataset list"

definition filter_by_region_ref ::
  "store \<Rightarrow> nat \<Rightarrow> string \<Rightarrow> string \<Rightarrow> (nat \<times> store) option" where
  "filter_by_region_ref st df region region_col =
     (if length st \<le> df then None
      else if region = ''Todas'' \<or> region_col \<notin> set (col_names (st ! df)) then Some (df, st)
      else Some (length st, st @ [filter_by_region (st ! df) region region_col]))"

definition filter_by_tipo_ref ::
  "store \<Rightarrow> nat \<Rightarrow> string \<Rightarrow> string \<Rightarrow> (nat \<times> store) option" where
  "filter_by_tipo_ref st df tipo tipo_col =
     (if length st \<le> df then None
      else if tipo = ''Todos'' \<or> tipo_col \<notin> set (col_names (st ! df)) then Some (df, st)
      else Some (length st, st @ [filter_by_tipo (st ! df) tipo tipo_col]))"

section \<open>Key figures\<close>

record kpis =
  total_establecimientos :: nat
  regiones :: nat
  comunas :: nat
  pct_publico :: rat
  con_urgencia :: nat

text \<open>\<open>nunique()\<close>: the number of distinct values that are present.\<close>

fun nunique :: "column \<Rightarrow> nat" where
  "nunique (ObjectCol vs) = length (remdups (dropna vs))"
| "nunique (NumericCol vs) = length (remdups (dropna vs))"

text \<open>
  \<open>str.contains(pat, case=False, na=False)\<close> for one value of a text column, where
  \<open>pat\<close> is an alternation \<open>a|b|c\<close> of literal texts: whether one of the alternatives
  occurs in the value, letter case ignored; a missing value gives \<open>False\<close>.
\<close>

definition str_contains :: "string list \<Rightarrow> string option \<Rightarrow> bool" where
  "str_contains alternatives v =
     (case v of
        None \<Rightarrow> False
      | Some s \<Rightarrow> list_ex (\<lambda>alt. str_in (lower alt) (lower s)) alternatives)"

definition publico_pattern :: "string list" where
  "publico_pattern = [Publico, ''Servicio de Salud'', ''Municipal'']"

text \<open>
  The share is computed in binary floating point: every operation on doubles gives the
  double nearest to the exact result, the one with the even last bit of two equally near.
  \<open>double x\<close> is that double for a rational \<open>x\<close>: with \<open>2 ^ e \<le> |x| < 2 ^ (e + 1)\<close>
  it is the nearest multiple of \<open>2 ^ (e - 52)\<close>. The exponent is not bounded here; the
  numbers of this program are far inside the range of doubles.
\<close>

definition round_half_even :: "rat \<Rightarrow> int" where
  "round_half_even x =
     (let f = \<lfloor>x\<rfloor>; d = x - of_int f
      in if d < 1 / 2 then f else if 1 / 2 < d then f + 1 else if even f then f else f + 1)"

definition ilog2 :: "rat \<Rightarrow> int" where
  "ilog2 x =
     (let (p, q) = quotient_of x; d = bitlen p - bitlen q
      in if 2 powi d \<le> x then d else d - 1)"

definition double :: "rat \<Rightarrow> rat" where
  "double x =
     (if x = 0 then 0
      else let u = 2 powi (ilog2 \<bar>x\<bar> - 52)
           in sgn x * (of_int (round_half_even (\<bar>x\<bar> / u)) * u))"

text \<open>
  \<open>round(x, 1)\<close> on a double of numpy is numpy's rounding: \<open>x\<close> times 10, rounded to
  the nearest integer (\<open>rint\<close>, the even one of two equally near), divided by 10, each
  step on doubles. On the Python float \<open>0.0\<close> it gives \<open>0.0\<close>, as here.
\<close>

definition round1 :: "rat \<Rightarrow> rat" where
  "round1 x = double (of_int (round_half_even (double (x * 10))) / 10)"

text \<open>
  \<open>df["DependenciaAdministrativa"].str\<close> exists for a column of text only: on a column
  of a numeric dtype pandas raises \<open>AttributeError\<close> (\<open>Can only use .str accessor with
  string values\<close>). \<open>publicos / total * 100\<close> divides the two counts as doubles and
  multiplies the quotient by 100.
\<close>

definition share_publico :: "dataset \<Rightarrow> error + rat" where
  "share_publico df =
     (case get_column df ''DependenciaAdministrativa'' of
        None \<Rightarrow> Inr 0
      | Some (NumericCol vs) \<Rightarrow> Inl AttributeError
      | Some (ObjectCol vs) \<Rightarrow>
          (let publicos = length (filter (str_contains publico_pattern) vs)
           in Inr (if 0 < len df
                   then double (double (double (of_nat publicos) / double (of_nat (len df))) * 100)
                   else 0)))"

definition calculate_kpis :: "dataset \<Rightarrow> error + kpis" where
  "calculate_kpis df =
     (let total = len df;
          n_regiones = (case get_column df ''RegionGlosa'' of None \<Rightarrow> 0 | Some c \<Rightarrow> nunique c);
          n_comunas = (case get_column df ''ComunaGlosa'' of None \<Rightarrow> 0 | Some c \<Rightarrow> nunique c)
      in case share_publico df of
           Inl e \<Rightarrow> Inl e
         | Inr pct \<Rightarrow>
             (let n_urgencia =
                    (case get_column df ''TieneServicioUrgencia'' of
                       None \<Rightarrow> 0
                     | Some c \<Rightarrow> length (filter (\<lambda>b. b) (eq_mask c Si)))
              in Inr \<lparr>total_establecimientos = total, regiones = n_regiones,
                      comunas = n_comunas, pct_publico = round1 pct,
                      con_urgencia = n_urgencia\<rparr>))"

section \<open>The portal client\<close>

text \<open>
  What the portal sends is a JSON value. What \<open>requests.get\<close> does at one attempt is
  given from outside: it raises a \<open>RequestException\<close> (no connection, time-out), or it
  returns a response with a status code and a body, which is a JSON value or is none.
  \<open>raise_for_status()\<close> raises for the codes 400 to 599. The pause between two attempts
  has no effect on the result and is left out.
\<close>

datatype json =
  JNull | JBool bool | JNum rat | JStr string | JArr "json list" | JObj "(string \<times> json) list"

record response =
  status_code :: nat
  body :: "json option"

datatype outcome = Raises | Responds response

definition MAX_RETRIES :: int where
  "MAX_RETRIES = 3"

text \<open>
  The loop of \<open>_make_request\<close> over the attempts \<open>range(retries)\<close>, with the last
  exception caught so far. With no attempt at all, \<open>raise last_exception\<close> raises
  \<open>None\<close>, which is a \<open>TypeError\<close>.
\<close>

fun request_attempts :: "(nat \<Rightarrow> outcome) \<Rightarrow> nat list \<Rightarrow> error option \<Rightarrow> error + response" where
  "request_attempts net [] last_exception =
     (case last_exception of None \<Rightarrow> Inl TypeError | Some e \<Rightarrow> Inl e)"
| "request_attempts net (attempt # rest) last_exception =
     (case net attempt of
        Raises \<Rightarrow> request_attempts net rest (Some RequestException)
      | Responds r \<Rightarrow>
          if 400 \<le> status_code r \<and> status_code r < 600
          then request_attempts net rest (Some RequestException)
          else Inr r)"

definition make_request :: "(nat \<Rightarrow> outcome) \<Rightarrow> int \<Rightarrow> error + response" where
  "make_request net retries = request_attempts net [0..<nat retries] None"

text \<open>
  The truth value of a JSON value in Python, \<open>d.get(key)\<close> on a parsed object (the last
  of several equal keys counts; an absent key gives \<open>None\<close>), and \<open>v[key]\<close> with a
  text key, which raises \<open>KeyError\<close> for a key an object does not have and
  \<open>TypeError\<close> on everything that is no object.
\<close>

fun truthy :: "json \<Rightarrow> bool" where
  "truthy JNull = False"
| "truthy (JBool b) = b"
| "truthy (JNum n) = (n \<noteq> 0)"
| "truthy (JStr s) = (s \<noteq> [])"
| "truthy (JArr xs) = (xs \<noteq> [])"
| "truthy (JObj kvs) = (kvs \<noteq> [])"

definition dict_get :: "(string \<times> json) list \<Rightarrow> string \<Rightarrow> json" where
  "dict_get kvs key = (case map_of (rev kvs) key of None \<Rightarrow> JNull | Some v \<Rightarrow> v)"

fun subscript :: "json \<Rightarrow> string \<Rightarrow> error + json" where
  "subscript (JObj kvs) key =
     (case map_of (rev kvs) key of None \<Rightarrow> Inl KeyError | Some v \<Rightarrow> Inr v)"
| "subscript v key = Inl TypeError"

text \<open>
  \<open>search_packages\<close>: \<open>response.json()\<close> raises for a body that is no JSON (a
  \<open>ValueError\<close>), \<open>data.get\<close> raises \<open>AttributeError\<close> when the body is no
  object.
\<close>

definition search_packages :: "(nat \<Rightarrow> outcome) \<Rightarrow> error + json" where
  "search_packages net =
     (case make_request net MAX_RETRIES of
        Inl e \<Rightarrow> Inl e
      | Inr r \<Rightarrow>
          (case body r of
             None \<Rightarrow> Inl ValueError
           | Some (JObj kvs) \<Rightarrow>
               if \<not> truthy (dict_get kvs ''success'') then Inr (JArr [])
               else (case subscript (JObj kvs) ''result'' of
                       Inl e \<Rightarrow> Inl e
                     | Inr result \<Rightarrow> subscript result ''results'')
           | Some other \<Rightarrow> Inl AttributeError))"

section \<open>Notions used in the statements\<close>

text \<open>The sum of the counts of an aggregate, and its order by count.\<close>

definition count_total :: "agg_table \<Rightarrow> nat" where
  "count_total t = sum_list (map snd (rows t))"

definition count_descending :: "agg_table \<Rightarrow> bool" where
  "count_descending t = sorted_wrt (\<lambda>a b. b \<le> a) (map snd (rows t))"

definition count_ascending :: "agg_table \<Rightarrow> bool" where
  "count_ascending t = sorted_wrt (\<lambda>a b. a \<le> b) (map snd (rows t))"

text \<open>
  What the loop of \<open>clean_dataframe\<close> does to the column under one label, and what the
  three steps of \<open>clean_dataframe\<close> together do to a column, given its trimmed label.
\<close>

definition coerce_column :: "(string \<Rightarrow> rat option) \<Rightarrow> string \<Rightarrow> column \<Rightarrow> column" where
  "coerce_column parse n c =
     (if str_in ''Codigo'' n \<and> is_object c then to_numeric parse c else c)"

definition cleaned_column :: "(string \<Rightarrow> rat option) \<Rightarrow> string \<Rightarrow> column \<Rightarrow> column" where
  "cleaned_column parse n c =
     (if is_object c
      then if str_in ''Codigo'' n then to_numeric parse (fillna No_informado c)
           else fillna No_informado c
      else c)"

text \<open>An attempt of \<open>_make_request\<close> fails: the request raises, or the status is an error.\<close>

definition attempt_fails :: "outcome \<Rightarrow> bool" where
  "attempt_fails out =
     (case out of Raises \<Rightarrow> True | Responds r \<Rightarrow> 400 \<le> status_code r \<and> status_code r < 600)"

section \<open>Example frames\<close>

text \<open>
  A frame as \<open>read_csv\<close> gives it for three facilities, one with no region, one with no
  dependency, and a code column whose label has blanks around it.
\<close>

definition raw_frame :: dataset where
  "raw_frame =
     \<lparr>index = [0, 1, 2],
      columns =
        [(''RegionGlosa'', ObjectCol [Some ''Maule'', Some ''Biobio'', None]),
         (''TipoEstablecimientoGlosa'', ObjectCol [Some ''Hospital'', Some ''Posta'', Some ''Hospital'']),
         (''DependenciaAdministrativa'', ObjectCol [Some ''MUNICIPAL de Talca'', None, Some ''Privado'']),
         (''ComunaGlosa'', ObjectCol [Some ''Talca'', Some ''Talca'', Some ''Lota'']),
         ('' CodigoRegion '', ObjectCol [Some ''7'', Some ''8'', Some ''x'']),
         (''postal_code'', ObjectCol [Some ''3460000'', None, Some ''4210000''])]\<rparr>"

definition cleaned_frame :: dataset where
  "cleaned_frame =
     \<lparr>index = [0, 1, 2],
      columns =
        [(''RegionGlosa'', ObjectCol [Some ''Maule'', Some ''Biobio'', Some ''No informado'']),
         (''TipoEstablecimientoGlosa'', ObjectCol [Some ''Hospital'', Some ''Posta'', Some ''Hospital'']),
         (''DependenciaAdministrativa'',
            ObjectCol [Some ''MUNICIPAL de Talca'', Some ''No informado'', Some ''Privado'']),
         (''ComunaGlosa'', ObjectCol [Some ''Talca'', Some ''Talca'', Some ''Lota'']),
         (''CodigoRegion'', NumericCol [Some 7, Some 8, None]),
         (''postal_code'', ObjectCol [Some ''3460000'', Some ''No informado'', Some ''4210000''])]\<rparr>"

text \<open>
  Two frames in which a whole column is blank in the CSV text, such as
  \<open>RegionGlosa;DependenciaAdministrativa\<close> followed by the lines \<open>Maule;\<close> and
  \<open>Biobio;\<close>: \<open>read_csv\<close> gives a blank column the dtype \<open>float64\<close>, every
  value NaN. A frame with region codes of which one is blank.
\<close>

definition blank_dependency_frame :: dataset where
  "blank_dependency_frame =
     \<lparr>index = [0, 1],
      columns =
        [(''RegionGlosa'', ObjectCol [Some ''Maule'', Some ''Biobio'']),
         (''DependenciaAdministrativa'', NumericCol [None, None])]\<rparr>"

definition unreported_frame :: dataset where
  "unreported_frame =
     \<lparr>index = [0, 1, 2],
      columns =
        [(''ComunaGlosa'', ObjectCol [Some ''Talca'', Some ''Lota'', Some ''Talca'']),
         (''DependenciaAdministrativa'', NumericCol [None, None, None]),
         (''TieneServicioUrgencia'', ObjectCol [Some Si, Some ''No'', Some Si])]\<rparr>"

definition region_code_frame :: dataset where
  "region_code_frame =
     \<lparr>index = [0, 1, 2],
      columns = [(''RegionGlosa'', NumericCol [Some 7, None, Some 7])]\<rparr>"

text \<open>
  Frames whose labels are distinct and become equal by trimming, as \<open>read_csv\<close> gives
  them for a CSV text with the header \<open>A; A\<close>: two columns of text; a column of text
  and a numeric column; and two numeric columns of codes under \<open>Codigo; Codigo\<close>.
\<close>

definition colliding_frame :: dataset where
  "colliding_frame =
     \<lparr>index = [0, 1],
      columns = [(''A'', ObjectCol [Some ''x'', None]), ('' A'', ObjectCol [Some ''y'', Some ''z''])]\<rparr>"

definition text_number_frame :: dataset where
  "text_number_frame =
     \<lparr>index = [0, 1],
      columns = [(''A'', ObjectCol [Some ''x'', None]), ('' A'', NumericCol [Some 2, Some 3])]\<rparr>"

definition codigo_twice_frame :: dataset where
  "codigo_twice_frame =
     \<lparr>index = [0, 1],
      columns = [(''Codigo'', NumericCol [Some 1, None]), ('' Codigo'', NumericCol [Some 2, Some 3])]\<rparr>"

text \<open>
  A portal that cannot be reached, and one that answers every request with status 200 and
  the JSON object \<open>{"success": false}\<close>.
\<close>

definition net_down :: "nat \<Rightarrow> outcome" where
  "net_down attempt = Raises"

definition refusal :: response where
  "refusal = \<lparr>status_code = 200, body = Some (JObj [(''success'', JBool False)])\<rparr>"

definition net_refusing :: "nat \<Rightarrow> outcome" where
  "net_refusing attempt = Responds refusal"

section \<open>Aggregation: the counts and their order\<close>

lemma sum_group_sizes: "sum_list (map snd (group_sizes vs)) = length (dropna vs)"
proof -
  let ?p = "dropna vs"
  have "sum_list (map snd (group_sizes vs)) = sum_list (map (count_list ?p) (sort (remdups ?p)))"
    by (simp add: group_sizes_def comp_def Let_def)
  also have "\<dots> = sum (count_list ?p) (set (sort (remdups ?p)))"
    by (rule sum_list_distinct_conv_sum_set) simp
  also have "\<dots> = length ?p"
    by (simp add: sum_count_set)
  finally show ?thesis .
qed

lemma length_dropna: "length (dropna vs) + length (filter (\<lambda>v. v = None) vs) = length vs"
  by (induction vs) (auto split: option.splits)

lemma sum_groupby_size: "sum_list (map snd (groupby_size c)) + isna_count c = col_len c"
  by (cases c) (simp_all add: comp_def case_prod_unfold sum_group_sizes length_dropna)

lemma sum_sort_values: "sum_list (map snd (sort_values b rs)) = sum_list (map snd rs)"
proof -
  have "mset (map snd (sort_values b rs)) = mset (map snd rs)"
    by (simp add: sort_values_def)
  then show ?thesis by (metis sum_mset_sum_list)
qed

lemma sort_values_descending: "sorted_wrt (\<lambda>a b. b \<le> a) (map snd (sort_values False rs))"
  by (simp add: sort_values_def rev_map[symmetric] sorted_wrt_rev)

lemma sort_values_ascending: "sorted (map snd (sort_values True rs))"
  by (simp add: sort_values_def)

lemma get_column_in_names: "get_column df col = Some c \<Longrightarrow> col \<in> set (col_names df)"
  unfolding get_column_def col_names_def by (metis map_of_SomeD image_eqI fst_conv set_map)

lemma in_names_get_column: "col \<in> set (col_names df) \<Longrightarrow> \<exists>c. get_column df col = Some c"
  unfolding get_column_def col_names_def by (metis map_of_eq_None_iff not_Some_eq set_map)

lemma wf_col_len: "wf_dataset df \<Longrightarrow> get_column df col = Some c \<Longrightarrow> col_len c = len df"
  unfolding wf_dataset_def get_column_def len_def list_all_iff
  by (auto dest!: map_of_SomeD)

lemma group_counts_present:
  assumes "get_column df col = Some c" and "col \<noteq> ''cantidad''"
  shows "group_counts df col = Inr \<lparr>labels = [col, ''cantidad''], rows = groupby_size c\<rparr>"
  using assms by (simp add: group_counts_def)

lemma tail_sorted: "sorted (map f xs) \<Longrightarrow> sorted (map f (tail n xs))"
  by (simp add: tail_def drop_map[symmetric])

lemma tail_length: "0 \<le> n \<Longrightarrow> int (length (tail n xs)) \<le> n"
  by (auto simp: tail_def)

text \<open>
  C1, as the code has it. \<open>groupby\<close> leaves out the rows whose value in the grouping
  column is missing. For a frame and a grouping column present in it (whose label is not
  \<open>cantidad\<close>, for which \<open>reset_index\<close> raises), each of \<open>agg_by_region\<close>,
  \<open>agg_by_tipo_establecimiento\<close> and \<open>agg_by_dependencia\<close> returns a table whose
  counts sum to the number of rows whose grouping value is present: the sum and the number
  of missing values together are the row count. The sum is the row count when no value of the
  grouping column is missing.
\<close>

theorem agg_counts_sum:
  assumes "wf_dataset df" and "get_column df col = Some c" and "col \<noteq> ''cantidad''"
  shows "(\<exists>t. agg_by_region df col = Inr t \<and> count_total t + isna_count c = len df) \<and>
         (\<exists>t. agg_by_tipo_establecimiento df col = Inr t \<and>
              count_total t + isna_count c = len df) \<and>
         (\<exists>t. agg_by_dependencia df col = Inr t \<and> count_total t + isna_count c = len df)"
proof -
  have names: "col \<in> set (col_names df)"
    using assms(2) by (rule get_column_in_names)
  have gc: "group_counts df col = Inr \<lparr>labels = [col, ''cantidad''], rows = groupby_size c\<rparr>"
    using assms(2,3) by (rule group_counts_present)
  have total: "sum_list (map snd (sort_values False (groupby_size c))) + isna_count c = len df"
    using sum_groupby_size[of c] wf_col_len[OF assms(1,2)] by (simp add: sum_sort_values)
  show ?thesis
    using names gc total
    by (simp add: agg_by_region_def agg_by_tipo_establecimiento_def agg_by_dependencia_def
        count_total_def)
qed

text \<open>
  C1, witness: the theorem at \<open>raw_frame\<close> and its region column, of which one value is
  missing.
\<close>

theorem agg_counts_sum_witness:
  "wf_dataset raw_frame \<and>
   get_column raw_frame ''RegionGlosa'' = Some (ObjectCol [Some ''Maule'', Some ''Biobio'', None]) \<and>
   (\<exists>t. agg_by_region raw_frame ''RegionGlosa'' = Inr t \<and> count_total t + 1 = len raw_frame) \<and>
   (\<exists>t. agg_by_tipo_establecimiento raw_frame ''RegionGlosa'' = Inr t \<and>
        count_total t + 1 = len raw_frame) \<and>
   (\<exists>t. agg_by_dependencia raw_frame ''RegionGlosa'' = Inr t \<and>
        count_total t + 1 = len raw_frame)"
proof -
  have w: "wf_dataset raw_frame"
    by code_simp
  have g: "get_column raw_frame ''RegionGlosa'' = Some (ObjectCol [Some ''Maule'', Some ''Biobio'', None])"
    by code_simp
  have n: "''RegionGlosa'' \<noteq> ''cantidad''"
    by simp
  from agg_counts_sum[OF w g n] w g show ?thesis
    by simp
qed

text \<open>
  C1, counterexample: the claim as stated fails where a value of the grouping column is
  missing. In \<open>raw_frame\<close>, of three rows, the region of one row is missing and the counts
  sum to two. After cleaning the same happens in a numeric column, which \<open>fillna\<close> does
  not touch: \<open>region_code_frame\<close> has three rows, is left as it is by
  \<open>clean_dataframe\<close>, and its counts sum to two.
\<close>

theorem agg_counts_sum_counterexample:
  "wf_dataset raw_frame \<and> len raw_frame = 3 \<and>
   agg_by_region raw_frame ''RegionGlosa'' =
     Inr \<lparr>labels = [''region'', ''cantidad''], rows = [(Str ''Biobio'', 1), (Str ''Maule'', 1)]\<rparr> \<and>
   count_total \<lparr>labels = [''region'', ''cantidad''], rows = [(Str ''Biobio'', 1), (Str ''Maule'', 1)]\<rparr> = 2 \<and>
   wf_dataset region_code_frame \<and> len region_code_frame = 3 \<and>
   clean_dataframe parse_digits region_code_frame = Returns region_code_frame \<and>
   agg_by_region region_code_frame ''RegionGlosa'' =
     Inr \<lparr>labels = [''region'', ''cantidad''], rows = [(Num 7, 2)]\<rparr> \<and>
   count_total \<lparr>labels = [''region'', ''cantidad''], rows = [(Num 7, 2)]\<rparr> = 2"
  by code_simp

text \<open>
  C2. The tables of \<open>agg_by_region\<close>, \<open>agg_by_tipo_establecimiento\<close> and
  \<open>agg_by_dependencia\<close> are in non-increasing order of the count; each returns a table
  for every frame and column, but for a column labelled \<open>cantidad\<close>. The table that
  \<open>plot_top_comunas\<close> draws, when the frame has communes to draw, is in non-decreasing
  order of the count and has at most \<open>top_n\<close> rows, \<open>top_n\<close> being a number of rows
  (not negative).
\<close>

theorem agg_sorted:
  "(case agg_by_region df col of
      Inl e \<Rightarrow> col = ''cantidad''
    | Inr t \<Rightarrow> count_descending t) \<and>
   (case agg_by_tipo_establecimiento df col of
      Inl e \<Rightarrow> col = ''cantidad''
    | Inr t \<Rightarrow> count_descending t) \<and>
   (case agg_by_dependencia df col of
      Inl e \<Rightarrow> col = ''cantidad''
    | Inr t \<Rightarrow> count_descending t) \<and>
   (case plot_top_comunas_counts df top_n of
      Inl e \<Rightarrow> False
    | Inr None \<Rightarrow> ''ComunaGlosa'' \<notin> set (col_names df) \<or> empty_df df
    | Inr (Some t) \<Rightarrow>
        count_ascending t \<and> (0 \<le> top_n \<longrightarrow> int (length (rows t)) \<le> top_n))"
proof -
  have desc: "count_descending \<lparr>labels = l, rows = sort_values False rs\<rparr>" for l rs
    by (simp add: count_descending_def sort_values_descending)
  have nil: "count_descending \<lparr>labels = l, rows = []\<rparr>" for l
    by (simp add: count_descending_def)
  have region: "case agg_by_region df col of
      Inl e \<Rightarrow> col = ''cantidad'' | Inr t \<Rightarrow> count_descending t"
    by (auto simp: agg_by_region_def group_counts_def desc nil
        dest: in_names_get_column split: option.splits)
  have tipo: "case agg_by_tipo_establecimiento df col of
      Inl e \<Rightarrow> col = ''cantidad'' | Inr t \<Rightarrow> count_descending t"
    by (auto simp: agg_by_tipo_establecimiento_def group_counts_def desc nil
        dest: in_names_get_column split: option.splits)
  have dependencia: "case agg_by_dependencia df col of
      Inl e \<Rightarrow> col = ''cantidad'' | Inr t \<Rightarrow> count_descending t"
    by (auto simp: agg_by_dependencia_def group_counts_def desc nil
        dest: in_names_get_column split: option.splits)
  have comunas: "case plot_top_comunas_counts df top_n of
      Inl e \<Rightarrow> False
    | Inr None \<Rightarrow> ''ComunaGlosa'' \<notin> set (col_names df) \<or> empty_df df
    | Inr (Some t) \<Rightarrow>
        count_ascending t \<and> (0 \<le> top_n \<longrightarrow> int (length (rows t)) \<le> top_n)"
    by (auto simp: plot_top_comunas_counts_def group_counts_def count_ascending_def
        tail_sorted sort_values_ascending tail_length
        dest: in_names_get_column split: option.splits)
  from region tipo dependencia comunas show ?thesis
    by blast
qed

text \<open>
  C2, witness: the theorem at \<open>raw_frame\<close>, grouped by commune, with \<open>top_n = 1\<close>:
  Talca with two facilities comes first in the three aggregates, and is the one row kept for
  the chart.
\<close>

theorem agg_sorted_witness:
  "agg_by_region raw_frame ''ComunaGlosa'' =
     Inr \<lparr>labels = [''region'', ''cantidad''], rows = [(Str ''Talca'', 2), (Str ''Lota'', 1)]\<rparr> \<and>
   count_descending
     \<lparr>labels = [''region'', ''cantidad''], rows = [(Str ''Talca'', 2), (Str ''Lota'', 1)]\<rparr> \<and>
   plot_top_comunas_counts raw_frame 1 =
     Inr (Some \<lparr>labels = [''ComunaGlosa'', ''cantidad''], rows = [(Str ''Talca'', 2)]\<rparr>) \<and>
   count_ascending \<lparr>labels = [''ComunaGlosa'', ''cantidad''], rows = [(Str ''Talca'', 2)]\<rparr> \<and>
   int (length (rows \<lparr>labels = [''ComunaGlosa'', ''cantidad''], rows = [(Str ''Talca'', 2)]\<rparr>)) \<le> 1"
proof -
  have region: "agg_by_region raw_frame ''ComunaGlosa'' =
     Inr \<lparr>labels = [''region'', ''cantidad''], rows = [(Str ''Talca'', 2), (Str ''Lota'', 1)]\<rparr>"
    by code_simp
  have comunas: "plot_top_comunas_counts raw_frame 1 =
     Inr (Some \<lparr>labels = [''ComunaGlosa'', ''cantidad''], rows = [(Str ''Talca'', 2)]\<rparr>)"
    by code_simp
  from agg_sorted[where df = raw_frame and col = "''ComunaGlosa''" and top_n = 1] region comunas show ?thesis
    by simp
qed

section \<open>Cleaning: which columns become numeric, and cleaning twice\<close>

lemma strip_strip: "strip (strip s) = strip s"
proof -
  define t where "t = dropWhile isspace s"
  define u where "u = rev (dropWhile isspace (rev t))"
  have rear: "dropWhile isspace (rev u) = rev u"
    by (simp add: u_def)
  have "rev (rev t) = rev (takeWhile isspace (rev t) @ dropWhile isspace (rev t))"
    by (simp only: takeWhile_dropWhile_id)
  then have split: "t = u @ rev (takeWhile isspace (rev t))"
    by (simp only: rev_append rev_rev_ident u_def)
  have front: "dropWhile isspace u = u"
  proof (cases u)
    case Nil
    then show ?thesis by simp
  next
    case (Cons a w)
    with split obtain r where "t = a # r" by simp
    then have "t \<noteq> []" and "hd t = a" by simp_all
    then have "\<not> isspace a"
      unfolding t_def using hd_dropWhile by blast
    with Cons show ?thesis by simp
  qed
  show ?thesis
    using front rear by (simp add: strip_def t_def[symmetric] u_def[symmetric])
qed

lemma is_object_to_numeric [simp]: "\<not> is_object (to_numeric parse c)"
  by (cases c) simp_all

lemma is_object_fillna [simp]: "is_object (fillna v c) = is_object c"
  by (cases c) simp_all

lemma fillna_fillna [simp]: "fillna v (fillna v c) = fillna v c"
  by (cases c) (simp_all add: comp_def split: option.splits)

lemma coerce_column_idem:
  "coerce_column parse n (coerce_column parse n c) = coerce_column parse n c"
  by (simp add: coerce_column_def)

lemma cleaned_column_idem:
  "cleaned_column parse n (cleaned_column parse n c) = cleaned_column parse n c"
  by (simp add: cleaned_column_def)

text \<open>In a frame whose labels are distinct, one column is under each label.\<close>

lemma under_distinct:
  assumes "distinct (map fst cols)" and "(k, c) \<in> set cols"
  shows "under k cols = [(k, c)]"
  using assms unfolding under_def
proof (induction cols)
  case Nil
  then show ?case by simp
next
  case (Cons x cols)
  obtain n c' where x: "x = (n, c')" by (cases x)
  show ?case
  proof (cases "n = k")
    case True
    with Cons.prems x have "c' = c"
      by (auto simp: rev_image_eqI)
    moreover from Cons.prems x True have "filter (\<lambda>(n, c). n = k) cols = []"
      by (auto simp: filter_empty_conv rev_image_eqI)
    ultimately show ?thesis using x True by simp
  next
    case False
    with Cons x show ?thesis by auto
  qed
qed

lemma getitem_list_sublist:
  assumes "distinct (map fst cols)" and "set ys \<subseteq> set cols"
  shows "getitem_list cols (map fst ys) = ys"
  using assms(2)
proof (induction ys)
  case Nil
  then show ?case by (simp add: getitem_list_def)
next
  case (Cons y ys)
  obtain k c where y: "y = (k, c)" by (cases y)
  with Cons.prems have "under k cols = [(k, c)]"
    by (intro under_distinct[OF assms(1)]) simp
  with Cons y show ?case
    by (simp add: getitem_list_def)
qed

text \<open>
  The assignment \<open>df[keys] = value\<close> where each key meets its own column of
  \<open>value\<close>, and the loop over the labels, in a frame whose labels are distinct.
\<close>

lemma setitem_array_aligned:
  assumes "\<And>k. k \<in> set ks \<Longrightarrow> map snd (under k val) = [F k]"
  shows "setitem_array val (map (\<lambda>k. (k, k)) ks) cur =
           Inr (map (\<lambda>(n, x). (n, if n \<in> set ks then F n else x)) cur)"
  using assms
proof (induction ks arbitrary: cur)
  case Nil
  then show ?case by (simp add: case_prod_unfold)
next
  case (Cons k ks)
  have step: "setitem cur k (map snd (under k val)) =
      Inr (map (\<lambda>(n, old). if n = k then (n, F k) else (n, old)) cur)"
    using Cons.prems[of k] by (simp add: setitem_def)
  have "setitem_array val (map (\<lambda>k. (k, k)) ks)
          (map (\<lambda>(n, old). if n = k then (n, F k) else (n, old)) cur) =
        Inr (map (\<lambda>(n, x). (n, if n \<in> set ks then F n else x))
          (map (\<lambda>(n, old). if n = k then (n, F k) else (n, old)) cur))"
    using Cons.prems by (intro Cons.IH) simp
  with step show ?case
    by (auto simp: comp_def case_prod_unfold)
qed

lemma plain_columns_map:
  "plain_columns (map (\<lambda>(n, c). (n, Plain (g n c))) xs) = Some (map (\<lambda>(n, c). (n, g n c)) xs)"
  by (induction xs) auto

lemma coerce_codigo_columns:
  assumes "distinct (map fst cols)"
  shows "set ks \<subseteq> set (map fst cols) \<Longrightarrow>
         coerce_codigo parse ks (map (\<lambda>(n, c). (n, Plain c)) cols) =
           Inr (map (\<lambda>(n, c). (n, Plain (if n \<in> set ks then coerce_column parse n c else c))) cols)"
  using assms
proof (induction ks arbitrary: cols)
  case Nil
  then show ?case by (simp add: case_prod_unfold)
next
  case (Cons k ks)
  from Cons.prems(1) obtain c where kc: "(k, c) \<in> set cols"
    by auto
  let ?w = "map (\<lambda>(n, c). (n, Plain c)) cols"
  have dw: "distinct (map fst ?w)"
    using Cons.prems(2) by (simp add: comp_def case_prod_unfold)
  have "(k, Plain c) \<in> set ?w"
    using kc by force
  then have u: "under k ?w = [(k, Plain c)]"
    by (rule under_distinct[OF dw])
  let ?cols' = "map (\<lambda>(n, x). (n, if n = k then coerce_column parse n x else x)) cols"
  have same: "x = c" if "(k, x) \<in> set cols" for x
    using Cons.prems(2) kc that by (metis eq_key_imp_eq_value)
  have names: "map fst ?cols' = map fst cols"
    by (simp add: comp_def case_prod_unfold)
  have next_frame: "coerce_codigo parse (k # ks) ?w =
      coerce_codigo parse ks (map (\<lambda>(n, c). (n, Plain c)) ?cols')"
  proof (cases "str_in ''Codigo'' k \<and> is_object c")
    case True
    have eqm: "map (\<lambda>(n, old). if n = k then (n, to_numeric_any parse (Plain c)) else (n, old)) ?w =
        map (\<lambda>(n, c). (n, Plain c)) ?cols'"
      using True by (auto simp: coerce_column_def dest: same)
    have "coerce_codigo parse (k # ks) ?w =
        coerce_codigo parse ks
          (map (\<lambda>(n, old). if n = k then (n, to_numeric_any parse (Plain c)) else (n, old)) ?w)"
      using True u by (simp del: map_map)
    then show ?thesis by (simp only: eqm)
  next
    case False
    have "?cols' = cols"
      using False by (intro map_idI) (auto simp: coerce_column_def dest: same)
    with False u show ?thesis by auto
  qed
  also have "\<dots> = Inr (map (\<lambda>(n, c). (n, Plain (if n \<in> set ks then coerce_column parse n c else c))) ?cols')"
  proof (rule Cons.IH)
    from Cons.prems(1) show "set ks \<subseteq> set (map fst ?cols')"
      by (simp only: names) simp
    from Cons.prems(2) show "distinct (map fst ?cols')"
      by (simp only: names)
  qed
  also have "\<dots> = Inr (map (\<lambda>(n, c). (n, Plain (if n \<in> set (k # ks) then coerce_column parse n c else c))) cols)"
    by (auto simp: comp_def case_prod_unfold coerce_column_idem)
  finally show ?case .
qed

text \<open>
  In a frame whose trimmed labels are distinct, \<open>clean_dataframe\<close> returns, and works
  column by column.
\<close>

lemma clean_dataframe_columns:
  assumes "distinct (map (strip \<circ> fst) (columns df))"
  shows "clean_dataframe parse df =
           Returns (df\<lparr>columns := map (\<lambda>(n, c). (strip n, cleaned_column parse (strip n) c)) (columns df)\<rparr>)"
proof -
  define cols1 where "cols1 = map (\<lambda>(n, c). (strip n, c)) (columns df)"
  define texts where "texts = filter (\<lambda>(n, c). is_object c) cols1"
  define val where "val = map (\<lambda>(n, c). (n, fillna_any No_informado c)) (getitem_list cols1 (map fst texts))"
  define F where "F = (\<lambda>k. case map_of cols1 k of Some c \<Rightarrow> Plain (fillna No_informado c) | None \<Rightarrow> Mixed [])"
  have d1: "distinct (map fst cols1)"
    using assms by (simp add: cols1_def comp_def case_prod_unfold)
  have sel: "getitem_list cols1 (map fst texts) = texts"
    by (rule getitem_list_sublist[OF d1]) (auto simp: texts_def)
  have val_eq: "val = map (\<lambda>(n, c). (n, Plain (fillna No_informado c))) texts"
    unfolding val_def sel
    by (rule map_cong) (auto simp: texts_def elim: is_object.elims)
  have dv: "distinct (map fst val)"
    using d1 by (simp add: val_eq texts_def comp_def case_prod_unfold distinct_map_filter)
  have pairs: "zip (map fst texts) (map fst val) = map (\<lambda>k. (k, k)) (map fst texts)"
    by (simp add: val_eq comp_def case_prod_unfold zip_same_conv_map)
  have piece: "map snd (under k val) = [F k]" if "k \<in> set (map fst texts)" for k
  proof -
    from that obtain c where kc: "(k, c) \<in> set texts" by auto
    then have "(k, c) \<in> set cols1" by (simp add: texts_def)
    with d1 have "map_of cols1 k = Some c" by simp
    moreover from kc have "(k, Plain (fillna No_informado c)) \<in> set val"
      by (force simp: val_eq)
    then have "under k val = [(k, Plain (fillna No_informado c))]"
      by (rule under_distinct[OF dv])
    ultimately show ?thesis by (simp add: F_def)
  qed
  have line45: "setitem_array val (zip (map fst texts) (map fst val)) (map (\<lambda>(n, c). (n, Plain c)) cols1) =
      Inr (map (\<lambda>(n, c). (n, Plain c))
        (map (\<lambda>(n, c). (n, if is_object c then fillna No_informado c else c)) cols1))"
  proof -
    have "setitem_array val (map (\<lambda>k. (k, k)) (map fst texts)) (map (\<lambda>(n, c). (n, Plain c)) cols1) =
        Inr (map (\<lambda>(n, x). (n, if n \<in> set (map fst texts) then F n else x))
          (map (\<lambda>(n, c). (n, Plain c)) cols1))"
      using piece by (rule setitem_array_aligned)
    moreover have "map (\<lambda>(n, x). (n, if n \<in> set (map fst texts) then F n else x))
          (map (\<lambda>(n, c). (n, Plain c)) cols1) =
        map (\<lambda>(n, c). (n, Plain c))
          (map (\<lambda>(n, c). (n, if is_object c then fillna No_informado c else c)) cols1)"
    proof -
      have key: "(if n \<in> set (map fst texts) then F n else Plain c) =
          Plain (if is_object c then fillna No_informado c else c)"
        if "(n, c) \<in> set cols1" for n c
      proof -
        from d1 that have m: "map_of cols1 n = Some c" by simp
        have "n \<in> set (map fst texts) \<longleftrightarrow> is_object c"
        proof
          assume "n \<in> set (map fst texts)"
          then obtain c' where "(n, c') \<in> set cols1" "is_object c'"
            by (auto simp: texts_def)
          with d1 that show "is_object c" by (metis eq_key_imp_eq_value)
        next
          assume "is_object c"
          with that show "n \<in> set (map fst texts)" by (force simp: texts_def)
        qed
        with m show ?thesis by (simp add: F_def)
      qed
      have "map (\<lambda>(n, x). (n, if n \<in> set (map fst texts) then F n else x))
            (map (\<lambda>(n, c). (n, Plain c)) cols1) =
          map (\<lambda>(n, c). (n, if n \<in> set (map fst texts) then F n else Plain c)) cols1"
        by (simp add: comp_def case_prod_unfold)
      also have "\<dots> = map (\<lambda>(n, c). (n, Plain (if is_object c then fillna No_informado c else c))) cols1"
        by (rule map_cong) (auto simp: key simp del: set_map)
      also have "\<dots> = map (\<lambda>(n, c). (n, Plain c))
            (map (\<lambda>(n, c). (n, if is_object c then fillna No_informado c else c)) cols1)"
        by (simp add: comp_def case_prod_unfold)
      finally show ?thesis .
    qed
    ultimately show ?thesis by (simp only: pairs)
  qed
  let ?cols2 = "map (\<lambda>(n, c). (n, if is_object c then fillna No_informado c else c)) cols1"
  have d2: "distinct (map fst ?cols2)"
    using d1 by (simp add: comp_def case_prod_unfold)
  have names2: "map fst (map (\<lambda>(n, c). (n, Plain c)) ?cols2) = map fst ?cols2"
    by (simp add: comp_def case_prod_unfold)
  have loop: "coerce_codigo parse (map fst ?cols2) (map (\<lambda>(n, c). (n, Plain c)) ?cols2) =
      Inr (map (\<lambda>(n, c). (n, Plain (if n \<in> set (map fst ?cols2) then coerce_column parse n c else c))) ?cols2)"
    using d2 by (intro coerce_codigo_columns) simp_all
  have final: "map (\<lambda>(n, c). (n, if n \<in> set (map fst ?cols2) then coerce_column parse n c else c)) ?cols2 =
      map (\<lambda>(n, c). (strip n, cleaned_column parse (strip n) c)) (columns df)"
    by (auto simp: cols1_def comp_def case_prod_unfold cleaned_column_def coerce_column_def rev_image_eqI)
  have "clean_dataframe parse df =
      Returns \<lparr>index = index df,
        columns = map (\<lambda>(n, c). (n, if n \<in> set (map fst ?cols2) then coerce_column parse n c else c)) ?cols2\<rparr>"
    unfolding clean_dataframe_def Let_def cols1_def[symmetric] texts_def[symmetric] val_def[symmetric]
    by (simp only: line45 names2 loop plain_columns_map sum.case option.case)
  then show ?thesis
    by (simp only: final) simp
qed

text \<open>
  C4, as the code has it. The substring that \<open>clean_dataframe\<close> looks for in a label is
  \<open>Codigo\<close>, in the label with the blanks around it removed. For a frame whose trimmed
  labels are distinct, \<open>clean_dataframe\<close> returns, without raising, the frame with the
  same rows in which each label is trimmed and each column is: read as numbers, a value that
  is no number becoming NaN, when its values are text and its trimmed label contains
  \<open>Codigo\<close>; with its missing values filled in, when its values are text and the label does
  not contain \<open>Codigo\<close>; unchanged when it is numeric. So the columns made numeric are
  exactly the text columns whose trimmed label contains \<open>Codigo\<close>.
\<close>

theorem clean_coerces_codigo:
  assumes "distinct (map (strip \<circ> fst) (columns df))"
  shows "\<exists>d. clean_dataframe parse df = Returns d \<and>
           index d = index df \<and>
           columns d =
             map (\<lambda>(n, c).
                   (strip n,
                    if is_object c \<and> str_in ''Codigo'' (strip n)
                    then to_numeric parse (fillna No_informado c)
                    else if is_object c then fillna No_informado c
                    else c))
               (columns df) \<and>
           list_all2 (\<lambda>(n, c) (n', c'). is_object c \<and> \<not> is_object c' \<longleftrightarrow>
                         is_object c \<and> str_in ''Codigo'' n')
             (columns df) (columns d)"
proof -
  let ?d = "df\<lparr>columns := map (\<lambda>(n, c). (strip n, cleaned_column parse (strip n) c)) (columns df)\<rparr>"
  have eq: "clean_dataframe parse df = Returns ?d"
    using assms by (rule clean_dataframe_columns)
  have cols: "map (\<lambda>(n, c). (strip n, cleaned_column parse (strip n) c)) (columns df) =
      map (\<lambda>(n, c).
             (strip n,
              if is_object c \<and> str_in ''Codigo'' (strip n)
              then to_numeric parse (fillna No_informado c)
              else if is_object c then fillna No_informado c
              else c))
        (columns df)"
    by (auto simp: cleaned_column_def)
  have exact: "list_all2 (\<lambda>(n, c) (n', c'). is_object c \<and> \<not> is_object c' \<longleftrightarrow>
                       is_object c \<and> str_in ''Codigo'' n')
      (columns df) (map (\<lambda>(n, c). (strip n, cleaned_column parse (strip n) c)) (columns df))"
    by (simp add: list_all2_map2 list_all2_same cleaned_column_def case_prod_unfold)
  have "index ?d = index df"
    by simp
  moreover from cols have "columns ?d =
      map (\<lambda>(n, c).
             (strip n,
              if is_object c \<and> str_in ''Codigo'' (strip n)
              then to_numeric parse (fillna No_informado c)
              else if is_object c then fillna No_informado c
              else c))
        (columns df)"
    by (simp del: map_eq_conv)
  moreover from exact have "list_all2 (\<lambda>(n, c) (n', c'). is_object c \<and> \<not> is_object c' \<longleftrightarrow>
                       is_object c \<and> str_in ''Codigo'' n')
      (columns df) (columns ?d)"
    by simp
  ultimately show ?thesis
    using eq by blast
qed

text \<open>
  C4, witness: the theorem at \<open>raw_frame\<close>, read with \<open>parse_digits\<close>. The column
  labelled \<open>CodigoRegion\<close> between blanks becomes numeric, its value \<open>x\<close> NaN; the text
  column \<open>postal_code\<close> stays text.
\<close>

theorem clean_coerces_codigo_witness:
  "distinct (map (strip \<circ> fst) (columns raw_frame)) \<and>
   (\<exists>d. clean_dataframe parse_digits raw_frame = Returns d \<and>
      index d = index cleaned_frame \<and> columns d = columns cleaned_frame)"
proof -
  have d: "distinct (map (strip \<circ> fst) (columns raw_frame))"
    by code_simp
  have i: "index raw_frame = index cleaned_frame"
    by code_simp
  have c: "map (\<lambda>(n, c).
                 (strip n,
                  if is_object c \<and> str_in ''Codigo'' (strip n)
                  then to_numeric parse_digits (fillna No_informado c)
                  else if is_object c then fillna No_informado c
                  else c))
             (columns raw_frame) = columns cleaned_frame"
    by code_simp
  from clean_coerces_codigo[OF d, of parse_digits] d i c show ?thesis
    by auto
qed

text \<open>
  C4, counterexample: the claim names the substring \<open>code\<close>. The label
  \<open>postal_code\<close> contains it and the column is text, and \<open>clean_dataframe\<close> leaves
  the column text; the label \<open>CodigoRegion\<close> does not contain it, and
  \<open>clean_dataframe\<close> makes the column numeric.
\<close>

theorem clean_coerces_code_counterexample:
  "str_in ''code'' ''postal_code'' \<and>
   clean_dataframe parse_digits
     \<lparr>index = [0], columns = [(''postal_code'', ObjectCol [Some ''3460000''])]\<rparr> =
     Returns \<lparr>index = [0], columns = [(''postal_code'', ObjectCol [Some ''3460000''])]\<rparr> \<and>
   \<not> str_in ''code'' ''CodigoRegion'' \<and>
   clean_dataframe parse_digits
     \<lparr>index = [0], columns = [(''CodigoRegion'', ObjectCol [Some ''7''])]\<rparr> =
     Returns \<lparr>index = [0], columns = [(''CodigoRegion'', NumericCol [Some 7])]\<rparr>"
  by code_simp

text \<open>
  Frames whose labels collide by trimming. With two columns of text the assignment of the
  filled columns raises \<open>ValueError\<close>. With a column of text and a numeric column in which
  nothing is missing a frame is returned, both columns under the one label. With two
  numeric columns under a label that contains \<open>Codigo\<close> the loop raises
  \<open>AttributeError\<close>.
\<close>

lemma clean_dataframe_collisions:
  "clean_dataframe parse_digits colliding_frame = Raised ValueError \<and>
   clean_dataframe parse_digits text_number_frame =
     Returns \<lparr>index = [0, 1],
       columns = [(''A'', ObjectCol [Some ''x'', Some ''No informado'']),
                  (''A'', NumericCol [Some 2, Some 3])]\<rparr> \<and>
   clean_dataframe parse_digits codigo_twice_frame = Raised AttributeError"
  by code_simp

text \<open>
  C8, as the code has it. For every raw frame whose labels are distinct after trimming,
  \<open>clean_dataframe\<close> returns a frame, and cleaning that frame returns it again: cleaning
  twice is cleaning once, whatever reads the numbers.
\<close>

theorem clean_idempotent:
  assumes "distinct (map (strip \<circ> fst) (columns df))"
  shows "\<exists>d. clean_dataframe parse df = Returns d \<and> clean_dataframe parse d = Returns d"
proof -
  let ?g = "\<lambda>(n, c). (strip n, cleaned_column parse (strip n) c)"
  let ?d = "df\<lparr>columns := map ?g (columns df)\<rparr>"
  have once: "clean_dataframe parse df = Returns ?d"
    using assms by (rule clean_dataframe_columns)
  have "map (strip \<circ> fst) (columns ?d) = map (strip \<circ> fst) (columns df)"
    by (simp add: comp_def case_prod_unfold strip_strip del: map_eq_conv)
  with assms have "distinct (map (strip \<circ> fst) (columns ?d))"
    by (simp only:)
  then have "clean_dataframe parse ?d = Returns (?d\<lparr>columns := map ?g (columns ?d)\<rparr>)"
    by (rule clean_dataframe_columns)
  also have "?d\<lparr>columns := map ?g (columns ?d)\<rparr> = ?d"
    by (simp add: comp_def case_prod_unfold strip_strip cleaned_column_idem)
  finally have "clean_dataframe parse ?d = Returns ?d" .
  with once show ?thesis
    by blast
qed

text \<open>
  C8, witness: the theorem at \<open>raw_frame\<close>, whose cleaning is \<open>cleaned_frame\<close>.
\<close>

theorem clean_idempotent_witness:
  "distinct (map (strip \<circ> fst) (columns raw_frame)) \<and>
   clean_dataframe parse_digits raw_frame = Returns cleaned_frame \<and>
   clean_dataframe parse_digits cleaned_frame = Returns cleaned_frame"
proof -
  have d: "distinct (map (strip \<circ> fst) (columns raw_frame))"
    by code_simp
  have c: "clean_dataframe parse_digits raw_frame = Returns cleaned_frame"
    by code_simp
  from clean_idempotent[OF d, of parse_digits] d c show ?thesis
    by auto
qed

text \<open>
  C8, counterexample: the claim is for every raw frame. \<open>colliding_frame\<close> is a raw
  frame, with two columns of text under two distinct labels, \<open>A\<close> and \<open>A\<close> with a
  blank before it, which trimming makes equal. \<open>clean_dataframe\<close> raises \<open>ValueError\<close> on it:
  there is no cleaned frame, and nothing that cleaning twice could equal.
\<close>

theorem clean_idempotent_counterexample:
  "wf_dataset colliding_frame \<and>
   col_names colliding_frame = [''A'', '' A''] \<and>
   clean_dataframe parse_digits colliding_frame = Raised ValueError"
  by code_simp

section \<open>Filtering: the sentinel, the order of two filters, and the frames left alone\<close>

lemma select_Nil [simp]: "select [] xs = []" "select keep [] = []"
  by (simp_all add: select_def)

lemma select_Cons [simp]:
  "select (a # keep) (x # xs) = (if a then x # select keep xs else select keep xs)"
  by (simp add: select_def)

lemma select_map: "select keep (map f xs) = map f (select keep xs)"
proof (induction keep arbitrary: xs)
  case Nil
  then show ?case by simp
next
  case (Cons a keep)
  then show ?case by (cases xs) simp_all
qed

text \<open>Two masks applied one after the other keep the rows at which both are true.\<close>

lemma select_select:
  "select (select m1 m2) (select m1 xs) = select (select m2 m1) (select m2 xs)"
proof (induction m1 arbitrary: m2 xs)
  case Nil
  then show ?case by simp
next
  case (Cons a m1)
  show ?case
  proof (cases m2)
    case Nil
    then show ?thesis by simp
  next
    case m2: (Cons b m2')
    show ?thesis
    proof (cases xs)
      case Nil
      then show ?thesis by simp
    next
      case (Cons x xs')
      with m2 Cons.IH[of m2' xs'] show ?thesis by simp
    qed
  qed
qed

lemma eq_mask_select_col: "eq_mask (select_col keep c) v = select keep (eq_mask c v)"
  by (cases c) (simp_all add: select_map)

lemma select_col_select_col:
  "select_col (select m1 m2) (select_col m1 c) = select_col (select m2 m1) (select_col m2 c)"
  by (cases c) (simp_all add: select_select)

lemma col_names_take_rows [simp]: "col_names (take_rows keep df) = col_names df"
  by (simp add: take_rows_def col_names_def comp_def case_prod_unfold)

lemma get_column_take_rows:
  "get_column (take_rows keep df) n = map_option (select_col keep) (get_column df n)"
  by (simp add: take_rows_def get_column_def map_of_map)

lemma take_rows_take_rows:
  "take_rows (select m1 m2) (take_rows m1 df) = take_rows (select m2 m1) (take_rows m2 df)"
  by (simp add: take_rows_def select_select select_col_select_col comp_def case_prod_unfold)

lemma col_names_filter_by_region [simp]:
  "col_names (filter_by_region df region region_col) = col_names df"
  by (simp add: filter_by_region_def split: option.splits)

lemma col_names_filter_by_tipo [simp]:
  "col_names (filter_by_tipo df tipo tipo_col) = col_names df"
  by (simp add: filter_by_tipo_def split: option.splits)

text \<open>
  C6. \<open>filter_by_region\<close> with the value \<open>Todas\<close>, \<open>filter_by_tipo\<close> with the value
  \<open>Todos\<close>, and either of them with a column that the frame does not have, return the
  frame they are given: the same rows, in the same number, and the same columns.
\<close>

theorem filter_all_identity:
  "(region = ''Todas'' \<or> region_col \<notin> set (col_names df) \<longrightarrow>
      filter_by_region df region region_col = df \<and>
      len (filter_by_region df region region_col) = len df) \<and>
   (tipo = ''Todos'' \<or> tipo_col \<notin> set (col_names df) \<longrightarrow>
      filter_by_tipo df tipo tipo_col = df \<and>
      len (filter_by_tipo df tipo tipo_col) = len df)"
  by (simp add: filter_by_region_def filter_by_tipo_def)

text \<open>
  C6, witness: \<open>raw_frame\<close> filtered by the region \<open>Todas\<close>, and by a type in a column
  \<open>Tipo\<close> that it does not have.
\<close>

theorem filter_all_identity_witness:
  "''Tipo'' \<notin> set (col_names raw_frame) \<and>
   filter_by_region raw_frame ''Todas'' ''RegionGlosa'' = raw_frame \<and>
   len (filter_by_region raw_frame ''Todas'' ''RegionGlosa'') = len raw_frame \<and>
   filter_by_tipo raw_frame ''Hospital'' ''Tipo'' = raw_frame \<and>
   len (filter_by_tipo raw_frame ''Hospital'' ''Tipo'') = len raw_frame"
proof -
  have absent: "''Tipo'' \<notin> set (col_names raw_frame)"
    by code_simp
  from filter_all_identity[where df = raw_frame and region = "''Todas''"
      and region_col = "''RegionGlosa''" and tipo = "''Hospital''" and tipo_col = "''Tipo''"]
    absent
  show ?thesis
    by simp
qed

text \<open>
  C7. Filtering by region and then by type gives the same frame as filtering by type and
  then by region: the same rows under the same row labels, for every frame, every two values
  (the sentinels among them) and every two columns.
\<close>

theorem filters_commute:
  "filter_by_tipo (filter_by_region df region region_col) tipo tipo_col =
   filter_by_region (filter_by_tipo df tipo tipo_col) region region_col"
proof -
  consider
    (no_region) "region = ''Todas'' \<or> region_col \<notin> set (col_names df)"
  | (no_tipo) "tipo = ''Todos'' \<or> tipo_col \<notin> set (col_names df)"
  | (both) "\<not> (region = ''Todas'' \<or> region_col \<notin> set (col_names df))"
      "\<not> (tipo = ''Todos'' \<or> tipo_col \<notin> set (col_names df))"
    by blast
  then show ?thesis
  proof cases
    case no_region
    then have "filter_by_region d region region_col = d" if "col_names d = col_names df" for d
      using that by (simp add: filter_by_region_def)
    then show ?thesis by simp
  next
    case no_tipo
    then have "filter_by_tipo d tipo tipo_col = d" if "col_names d = col_names df" for d
      using that by (simp add: filter_by_tipo_def)
    then show ?thesis by simp
  next
    case both
    from both(1) obtain c1 where c1: "get_column df region_col = Some c1"
      using in_names_get_column by blast
    from both(2) obtain c2 where c2: "get_column df tipo_col = Some c2"
      using in_names_get_column by blast
    let ?m1 = "eq_mask c1 region" and ?m2 = "eq_mask c2 tipo"
    have r: "filter_by_region df region region_col = take_rows ?m1 df"
      using both(1) c1 by (simp add: filter_by_region_def)
    have t: "filter_by_tipo df tipo tipo_col = take_rows ?m2 df"
      using both(2) c2 by (simp add: filter_by_tipo_def)
    have "filter_by_tipo (take_rows ?m1 df) tipo tipo_col =
        take_rows (select ?m1 ?m2) (take_rows ?m1 df)"
      using both(2) c2 by (simp add: filter_by_tipo_def get_column_take_rows eq_mask_select_col)
    moreover have "filter_by_region (take_rows ?m2 df) region region_col =
        take_rows (select ?m2 ?m1) (take_rows ?m2 df)"
      using both(1) c1 by (simp add: filter_by_region_def get_column_take_rows eq_mask_select_col)
    ultimately show ?thesis
      by (simp add: r t take_rows_take_rows)
  qed
qed

text \<open>
  C7, witness: \<open>cleaned_frame\<close> filtered by the type \<open>Hospital\<close> and the region
  \<open>Maule\<close>, in both orders: the first row alone is left.
\<close>

theorem filters_commute_witness:
  "filter_by_tipo (filter_by_region cleaned_frame ''Maule'' ''RegionGlosa'')
     ''Hospital'' ''TipoEstablecimientoGlosa'' =
     \<lparr>index = [0],
      columns =
        [(''RegionGlosa'', ObjectCol [Some ''Maule'']),
         (''TipoEstablecimientoGlosa'', ObjectCol [Some ''Hospital'']),
         (''DependenciaAdministrativa'', ObjectCol [Some ''MUNICIPAL de Talca'']),
         (''ComunaGlosa'', ObjectCol [Some ''Talca'']),
         (''CodigoRegion'', NumericCol [Some 7]),
         (''postal_code'', ObjectCol [Some ''3460000''])]\<rparr> \<and>
   filter_by_region (filter_by_tipo cleaned_frame ''Hospital'' ''TipoEstablecimientoGlosa'')
     ''Maule'' ''RegionGlosa'' =
     \<lparr>index = [0],
      columns =
        [(''RegionGlosa'', ObjectCol [Some ''Maule'']),
         (''TipoEstablecimientoGlosa'', ObjectCol [Some ''Hospital'']),
         (''DependenciaAdministrativa'', ObjectCol [Some ''MUNICIPAL de Talca'']),
         (''ComunaGlosa'', ObjectCol [Some ''Talca'']),
         (''CodigoRegion'', NumericCol [Some 7]),
         (''postal_code'', ObjectCol [Some ''3460000''])]\<rparr>"
proof -
  have one: "filter_by_tipo (filter_by_region cleaned_frame ''Maule'' ''RegionGlosa'')
     ''Hospital'' ''TipoEstablecimientoGlosa'' =
     \<lparr>index = [0],
      columns =
        [(''RegionGlosa'', ObjectCol [Some ''Maule'']),
         (''TipoEstablecimientoGlosa'', ObjectCol [Some ''Hospital'']),
         (''DependenciaAdministrativa'', ObjectCol [Some ''MUNICIPAL de Talca'']),
         (''ComunaGlosa'', ObjectCol [Some ''Talca'']),
         (''CodigoRegion'', NumericCol [Some 7]),
         (''postal_code'', ObjectCol [Some ''3460000''])]\<rparr>"
    by code_simp
  from filters_commute[of cleaned_frame "''Maule''" "''RegionGlosa''" "''Hospital''"
      "''TipoEstablecimientoGlosa''"] one
  show ?thesis
    by simp
qed

text \<open>
  C9, as the code has it. A call of \<open>filter_by_region\<close> or \<open>filter_by_tipo\<close> on a
  frame of the store leaves every frame of the store as it was, the argument among them: its
  rows, its columns and its row count are unchanged. When a filter is applied (the value is
  not the sentinel and the column is present) the result is a new frame, which no earlier
  reference is to. With the sentinel or an absent column the result is the argument itself,
  not a new frame, and the store is the same.
\<close>

theorem filter_leaves_store:
  assumes "df < length st"
  shows "(\<exists>r st'. filter_by_region_ref st df region region_col = Some (r, st') \<and>
            (\<forall>a < length st. st' ! a = st ! a) \<and>
            st' ! r = filter_by_region (st ! df) region region_col \<and>
            (if region = ''Todas'' \<or> region_col \<notin> set (col_names (st ! df))
             then r = df \<and> st' = st
             else r = length st \<and> length st' = Suc (length st))) \<and>
         (\<exists>r st'. filter_by_tipo_ref st df tipo tipo_col = Some (r, st') \<and>
            (\<forall>a < length st. st' ! a = st ! a) \<and>
            st' ! r = filter_by_tipo (st ! df) tipo tipo_col \<and>
            (if tipo = ''Todos'' \<or> tipo_col \<notin> set (col_names (st ! df))
             then r = df \<and> st' = st
             else r = length st \<and> length st' = Suc (length st)))"
  using assms
  by (simp add: filter_by_region_ref_def filter_by_tipo_ref_def nth_append
      filter_by_region_def filter_by_tipo_def)

text \<open>
  C9, witness: in a store that holds \<open>cleaned_frame\<close> alone, filtering it by the region
  \<open>Biobio\<close> makes a second frame and leaves the first, and filtering it by the type
  \<open>Todos\<close> returns the first.
\<close>

theorem filter_leaves_store_witness:
  "0 < length [cleaned_frame] \<and>
   (\<exists>st'. filter_by_region_ref [cleaned_frame] 0 ''Biobio'' ''RegionGlosa'' = Some (1, st') \<and>
      st' ! 0 = cleaned_frame \<and> len (st' ! 1) = 1 \<and> length st' = 2) \<and>
   filter_by_tipo_ref [cleaned_frame] 0 ''Todos'' ''TipoEstablecimientoGlosa'' =
     Some (0, [cleaned_frame])"
proof -
  have live: "0 < length [cleaned_frame]"
    by simp
  have present: "''RegionGlosa'' \<in> set (col_names ([cleaned_frame] ! 0))"
    by code_simp
  have rows: "len (filter_by_region ([cleaned_frame] ! 0) ''Biobio'' ''RegionGlosa'') = 1"
    by code_simp
  from filter_leaves_store[OF live, of "''Biobio''" "''RegionGlosa''" "''Todos''"
      "''TipoEstablecimientoGlosa''"] present rows
  show ?thesis
    by auto
qed

text \<open>
  C9, counterexample: the claim says that the result of a filter is a new frame. Filtering
  by the sentinel returns the reference it was given, here reference 0 in a store of one
  frame, and makes no frame.
\<close>

theorem filter_new_frame_counterexample:
  "filter_by_region_ref [cleaned_frame] 0 ''Todas'' ''RegionGlosa'' = Some (0, [cleaned_frame]) \<and>
   filter_by_tipo_ref [cleaned_frame] 0 ''Todos'' ''TipoEstablecimientoGlosa'' =
     Some (0, [cleaned_frame])"
  by (simp add: filter_by_region_ref_def filter_by_tipo_ref_def)

section \<open>Key figures: the share of public facilities\<close>

lemma round_half_even_nonneg: "0 \<le> x \<Longrightarrow> 0 \<le> round_half_even x"
  by (auto simp: round_half_even_def Let_def)

lemma round_half_even_le:
  assumes "x \<le> of_int n"
  shows "round_half_even x \<le> n"
proof -
  from assms have f: "\<lfloor>x\<rfloor> \<le> n"
    by (simp add: floor_le_iff)
  show ?thesis
  proof (cases "\<lfloor>x\<rfloor> = n")
    case True
    with assms have "x - of_int \<lfloor>x\<rfloor> \<le> 0" by simp
    then have "x - of_int \<lfloor>x\<rfloor> < 1 / 2" by simp
    with True show ?thesis by (simp add: round_half_even_def Let_def)
  next
    case False
    with f have "\<lfloor>x\<rfloor> + 1 \<le> n" by simp
    with f show ?thesis by (auto simp: round_half_even_def Let_def)
  qed
qed

text \<open>Rounding to a double keeps the order, and a power of two between two numbers.\<close>

lemma round_half_even_mono: "x \<le> y \<Longrightarrow> round_half_even x \<le> round_half_even y"
proof -
  assume xy: "x \<le> y"
  then have f: "\<lfloor>x\<rfloor> \<le> \<lfloor>y\<rfloor>" by (rule floor_mono)
  have lo: "\<lfloor>y\<rfloor> \<le> round_half_even y"
    by (auto simp: round_half_even_def Let_def)
  have hi: "round_half_even x \<le> \<lfloor>x\<rfloor> + 1"
    by (auto simp: round_half_even_def Let_def)
  show ?thesis
  proof (cases "\<lfloor>x\<rfloor> = \<lfloor>y\<rfloor>")
    case True
    with xy have "x - of_int \<lfloor>x\<rfloor> \<le> y - of_int \<lfloor>y\<rfloor>" by simp
    with True show ?thesis
      by (auto simp: round_half_even_def Let_def)
  next
    case False
    with f have "\<lfloor>x\<rfloor> + 1 \<le> \<lfloor>y\<rfloor>" by simp
    with lo hi show ?thesis by linarith
  qed
qed

lemma round_half_even_of_int [simp]: "round_half_even (of_int n) = n"
  by (simp add: round_half_even_def)

lemma ilog2_bounds:
  assumes "0 < x"
  shows "2 powi (ilog2 x) \<le> x \<and> x < 2 powi (ilog2 x + 1)"
proof -
  obtain p q where pq: "quotient_of x = (p, q)" by (cases "quotient_of x")
  then have q: "0 < q" by (rule quotient_of_denom_pos)
  from pq have x: "x = of_int p / of_int q" by (rule quotient_of_div)
  with assms q have p: "0 < p" by (simp add: zero_less_divide_iff)
  define d where "d = bitlen p - bitlen q"
  have bp: "1 \<le> bitlen p" and bq: "1 \<le> bitlen q"
    using p q by (auto simp: bitlen_alt_def)
  have "2 ^ nat (bitlen p - 1) \<le> p" "p < 2 ^ nat (bitlen p)"
    using bitlen_bounds[OF p] by auto
  then have "(of_int (2 ^ nat (bitlen p - 1)) :: rat) \<le> of_int p" "(of_int p :: rat) < of_int (2 ^ nat (bitlen p))"
    by (simp_all only: of_int_le_iff of_int_less_iff)
  then have p1: "(2::rat) powi (bitlen p - 1) \<le> of_int p" and p2: "(of_int p :: rat) < 2 powi (bitlen p)"
    using bp by (simp_all add: power_int_def)
  have "2 ^ nat (bitlen q - 1) \<le> q" "q < 2 ^ nat (bitlen q)"
    using bitlen_bounds[OF q] by auto
  then have "(of_int (2 ^ nat (bitlen q - 1)) :: rat) \<le> of_int q" "(of_int q :: rat) < of_int (2 ^ nat (bitlen q))"
    by (simp_all only: of_int_le_iff of_int_less_iff)
  then have q1: "(2::rat) powi (bitlen q - 1) \<le> of_int q" and q2: "(of_int q :: rat) < 2 powi (bitlen q)"
    using bq by (simp_all add: power_int_def)
  have qpos: "(0::rat) < of_int q" using q by simp
  have upper: "x < 2 powi (d + 1)"
  proof -
    have "x * 2 powi (bitlen q - 1) \<le> x * of_int q"
      using q1 assms by (intro mult_left_mono) simp_all
    also have "\<dots> = of_int p" using x qpos by simp
    also have "\<dots> < 2 powi (bitlen p)" by (rule p2)
    also have "\<dots> = 2 powi (d + 1) * 2 powi (bitlen q - 1)"
      by (simp add: d_def flip: power_int_add)
    finally show ?thesis by simp
  qed
  have lower: "2 powi (d - 1) \<le> x"
  proof -
    have "(2::rat) powi (d - 1) * of_int q \<le> 2 powi (d - 1) * 2 powi (bitlen q)"
      using q2 by (intro mult_left_mono) simp_all
    also have "\<dots> = 2 powi (bitlen p - 1)"
      by (simp add: d_def flip: power_int_add)
    also have "\<dots> \<le> of_int p" by (rule p1)
    also have "\<dots> = x * of_int q" using x qpos by simp
    finally show ?thesis using qpos by simp
  qed
  have e: "ilog2 x = (if 2 powi d \<le> x then d else d - 1)"
    by (simp add: ilog2_def pq d_def)
  show ?thesis
  proof (cases "2 powi d \<le> x")
    case True
    with e upper show ?thesis by simp
  next
    case False
    with e lower show ?thesis by simp
  qed
qed

lemma ilog2_mono:
  assumes "0 < x" and "x \<le> y"
  shows "ilog2 x \<le> ilog2 y"
proof -
  from assms have y: "0 < y" by simp
  have "2 powi (ilog2 x) \<le> x" using ilog2_bounds[OF assms(1)] by simp
  also note assms(2)
  also have "y < 2 powi (ilog2 y + 1)" using ilog2_bounds[OF y] by simp
  finally have "(2::rat) powi (ilog2 x) < 2 powi (ilog2 y + 1)" .
  then have "ilog2 x < ilog2 y + 1"
    by (metis not_less power_int_increasing one_le_numeral)
  then show ?thesis by simp
qed

lemma double_pos_bounds:
  assumes "0 < x"
  shows "2 powi (ilog2 x) \<le> double x \<and> double x \<le> 2 powi (ilog2 x + 1)"
proof -
  define e where "e = ilog2 x"
  define u :: rat where "u = 2 powi (e - 52)"
  have u: "0 < u" by (simp add: u_def)
  have b: "2 powi e \<le> x" "x < 2 powi (e + 1)"
    using ilog2_bounds[OF assms] by (simp_all add: e_def)
  have e1: "(2::rat) powi e = of_int (2 ^ 52) * u"
    by (simp add: u_def power_int_diff)
  have e2: "(2::rat) powi (e + 1) = of_int (2 ^ 53) * u"
    by (simp add: u_def power_int_diff power_int_add)
  have "of_int (2 ^ 52) \<le> x / u"
    using b(1) u by (simp add: e1 pos_le_divide_eq)
  then have "round_half_even (of_int (2 ^ 52)) \<le> round_half_even (x / u)"
    by (rule round_half_even_mono)
  then have lo: "2 ^ 52 \<le> round_half_even (x / u)"
    by (simp only: round_half_even_of_int)
  have "x / u \<le> of_int (2 ^ 53)"
    using b(2) u by (simp add: e2 pos_divide_le_eq)
  then have "round_half_even (x / u) \<le> round_half_even (of_int (2 ^ 53))"
    by (rule round_half_even_mono)
  then have hi: "round_half_even (x / u) \<le> 2 ^ 53"
    by (simp only: round_half_even_of_int)
  have d: "double x = of_int (round_half_even (x / u)) * u"
    using assms by (simp add: double_def Let_def e_def u_def)
  have "(of_int (2 ^ 52) :: rat) \<le> of_int (round_half_even (x / u))"
    using lo by (simp only: of_int_le_iff)
  then have "of_int (2 ^ 52) * u \<le> of_int (round_half_even (x / u)) * u"
    using u by (intro mult_right_mono) simp_all
  moreover have "(of_int (round_half_even (x / u)) :: rat) \<le> of_int (2 ^ 53)"
    using hi by (simp only: of_int_le_iff)
  then have "of_int (round_half_even (x / u)) * u \<le> of_int (2 ^ 53) * u"
    using u by (intro mult_right_mono) simp_all
  ultimately show ?thesis
    unfolding d e_def[symmetric] e1 e2 by simp
qed

lemma double_nonneg: "0 \<le> x \<Longrightarrow> 0 \<le> double x"
proof (cases "x = 0")
  case True
  then show ?thesis by (simp add: double_def)
next
  case False
  assume "0 \<le> x"
  with False have "0 < x" by simp
  from double_pos_bounds[OF this] have "2 powi (ilog2 x) \<le> double x" by simp
  moreover have "(0::rat) < 2 powi (ilog2 x)" by simp
  ultimately show ?thesis by linarith
qed

lemma double_mono:
  assumes "0 \<le> x" and "x \<le> y"
  shows "double x \<le> double y"
proof (cases "x = 0")
  case True
  with assms have "0 \<le> y" by simp
  then have "0 \<le> double y" by (rule double_nonneg)
  with True show ?thesis by (simp add: double_def)
next
  case False
  with assms have x: "0 < x" and y: "0 < y" by simp_all
  have le: "ilog2 x \<le> ilog2 y" using x assms(2) by (rule ilog2_mono)
  show ?thesis
  proof (cases "ilog2 x = ilog2 y")
    case True
    define u :: rat where "u = 2 powi (ilog2 y - 52)"
    have u: "0 < u" by (simp add: u_def)
    have dx: "double x = of_int (round_half_even (x / u)) * u"
      using x True by (simp add: double_def Let_def u_def)
    have dy: "double y = of_int (round_half_even (y / u)) * u"
      using y by (simp add: double_def Let_def u_def)
    have "x / u \<le> y / u" using assms(2) u by (simp add: divide_right_mono)
    then have "round_half_even (x / u) \<le> round_half_even (y / u)"
      by (rule round_half_even_mono)
    then show ?thesis
      unfolding dx dy using u by (intro mult_right_mono) simp_all
  next
    case False
    with le have "ilog2 x + 1 \<le> ilog2 y" by simp
    then have "(2::rat) powi (ilog2 x + 1) \<le> 2 powi (ilog2 y)"
      by (intro power_int_increasing) simp_all
    moreover have "double x \<le> 2 powi (ilog2 x + 1)"
      using double_pos_bounds[OF x] by simp
    moreover have "2 powi (ilog2 y) \<le> double y"
      using double_pos_bounds[OF y] by simp
    ultimately show ?thesis by linarith
  qed
qed

lemma double_exact: "double 0 = 0 \<and> double 1 = 1 \<and> double 100 = 100 \<and> double 1000 = 1000"
  by code_simp

lemma double_range:
  assumes "0 \<le> x" and "x \<le> b" and "double b = b"
  shows "0 \<le> double x \<and> double x \<le> b"
  using double_nonneg[OF assms(1)] double_mono[OF assms(1,2)] assms(3) by simp

lemma round1_range:
  assumes "0 \<le> x" and "x \<le> 100"
  shows "0 \<le> round1 x \<and> round1 x \<le> 100"
proof -
  from assms have "0 \<le> x * 10" and "x * 10 \<le> 1000"
    by simp_all
  then have y: "0 \<le> double (x * 10) \<and> double (x * 10) \<le> 1000"
    using double_exact by (intro double_range) simp_all
  then have "0 \<le> round_half_even (double (x * 10))"
    and "round_half_even (double (x * 10)) \<le> 1000"
    by (auto intro!: round_half_even_nonneg round_half_even_le)
  then have "(0::rat) \<le> of_int (round_half_even (double (x * 10))) / 10"
    and "(of_int (round_half_even (double (x * 10))) :: rat) / 10 \<le> 100"
    by simp_all
  then show ?thesis
    unfolding round1_def using double_exact by (intro double_range) simp_all
qed

lemma round1_zero [simp]: "round1 0 = 0"
  by code_simp

text \<open>The share of \<open>publicos\<close> rows among \<open>total\<close>, as the code computes it.\<close>

lemma share_range:
  assumes "k \<le> n" and "0 < n"
  shows "0 \<le> double (double (double (of_nat k) / double (of_nat n)) * 100) \<and>
         double (double (double (of_nat k) / double (of_nat n)) * 100) \<le> 100"
proof -
  let ?a = "double (of_nat k)" and ?b = "double (of_nat n)"
  have a: "0 \<le> ?a"
    by (intro double_nonneg) simp
  have ab: "?a \<le> ?b"
    using assms(1) by (intro double_mono) simp_all
  have "double 1 \<le> ?b"
    using assms(2) by (intro double_mono) simp_all
  then have b: "1 \<le> ?b"
    using double_exact by simp
  from a ab b have "0 \<le> ?a / ?b" and "?a / ?b \<le> 1"
    by (simp_all add: divide_le_eq)
  then have "0 \<le> double (?a / ?b) \<and> double (?a / ?b) \<le> 1"
    using double_exact by (intro double_range) simp_all
  then have "0 \<le> double (?a / ?b) * 100" and "double (?a / ?b) * 100 \<le> 100"
    by simp_all
  then show ?thesis
    using double_exact by (intro double_range) simp_all
qed

text \<open>
  Where the dependency column is a column of text, \<open>calculate_kpis\<close> returns, and the
  share it returns is between 0 and 100 and is the rounded hundredfold of the number of rows
  whose value is present and contains one of the three texts, over the number of rows,
  computed on doubles; a missing value counts as no match. It is 0 for a frame of no rows.
\<close>

lemma calculate_kpis_text:
  assumes "wf_dataset df"
    and "get_column df ''DependenciaAdministrativa'' = Some (ObjectCol vs)"
  shows "\<exists>k. calculate_kpis df = Inr k \<and> 0 \<le> pct_publico k \<and> pct_publico k \<le> 100 \<and>
           pct_publico k =
             (if 0 < len df
              then round1 (double (double
                      (double (of_nat (length (filter (str_contains publico_pattern) vs))) /
                       double (of_nat (len df))) * 100))
              else 0)"
proof -
  let ?p = "length (filter (str_contains publico_pattern) vs)"
  let ?share = "if 0 < len df
    then double (double (double (of_nat ?p) / double (of_nat (len df))) * 100) else (0::rat)"
  have "length vs = len df"
    using wf_col_len[OF assms] by simp
  then have "?p \<le> len df"
    by (metis length_filter_le)
  then have "0 \<le> ?share \<and> ?share \<le> 100"
    using share_range[of ?p "len df"] by simp
  then have range: "0 \<le> round1 ?share \<and> round1 ?share \<le> 100"
    by (intro round1_range) simp_all
  have "share_publico df = Inr ?share"
    using assms(2) by (simp add: share_publico_def)
  then have "\<exists>k. calculate_kpis df = Inr k \<and> pct_publico k = round1 ?share"
    by (simp add: calculate_kpis_def Let_def)
  with range show ?thesis
    by (auto split: if_splits)
qed

lemma str_contains_missing: "\<not> str_contains alternatives None"
  by (simp add: str_contains_def)

text \<open>Where the frame has no dependency column, the share is 0.\<close>

lemma calculate_kpis_absent:
  assumes "get_column df ''DependenciaAdministrativa'' = None"
  shows "\<exists>k. calculate_kpis df = Inr k \<and> pct_publico k = 0"
  using assms by (simp add: calculate_kpis_def share_publico_def Let_def)

text \<open>
  The cleaned example: one of three facilities is municipal (in capitals), one was not
  reported; the share is the double nearest to 33.3. With 23 public rows of 80 the code
  gives the double nearest to 28.7, where the exact share 28.75 lies midway between two
  tenths.
\<close>

lemma calculate_kpis_cleaned_frame:
  "calculate_kpis cleaned_frame =
     Inr \<lparr>total_establecimientos = 3, regiones = 3, comunas = 2,
          pct_publico = double (333 / 10), con_urgencia = 0\<rparr>"
  by code_simp

lemma share_23_of_80:
  "round1 (double (double (double (of_nat 23) / double (of_nat 80)) * 100)) = double (287 / 10)"
  by code_simp

text \<open>
  C3, where the code departs from the claim. The claim gives every frame a share between 0
  and 100, which is 0 when no row matches. For \<open>blank_dependency_frame\<close>, whose dependency
  column is blank in every row and so of a numeric dtype, which cleaning leaves as it is,
  \<open>calculate_kpis\<close> returns no share: it raises \<open>AttributeError\<close>.
\<close>

theorem calculate_kpis_blank_dependency:
  "wf_dataset blank_dependency_frame \<and>
   clean_dataframe parse_digits blank_dependency_frame = Returns blank_dependency_frame \<and>
   calculate_kpis blank_dependency_frame = Inl AttributeError"
  by code_simp

text \<open>
  C10, where the code departs from the claim. In \<open>unreported_frame\<close> the dependency of
  every row is missing. The claim counts each of these rows as not public, without raising;
  \<open>calculate_kpis\<close> raises \<open>AttributeError\<close>, as the column of missing values is
  not a column of text. (Where at least one value of the column is text, a missing value
  is no match: \<open>str_contains_missing\<close>, \<open>calculate_kpis_text\<close>.)
\<close>

theorem calculate_kpis_unreported:
  "wf_dataset unreported_frame \<and>
   get_column unreported_frame ''DependenciaAdministrativa'' = Some (NumericCol [None, None, None]) \<and>
   calculate_kpis unreported_frame = Inl AttributeError"
  by code_simp

section \<open>The portal client: what search_packages does on a failure\<close>

lemma request_attempts_all_fail:
  "list_all (\<lambda>i. attempt_fails (net i)) attempts \<Longrightarrow>
   attempts \<noteq> [] \<or> last_exception = Some RequestException \<Longrightarrow>
   request_attempts net attempts last_exception = Inl RequestException"
  by (induction attempts arbitrary: last_exception)
     (auto simp: attempt_fails_def split: outcome.splits)

text \<open>
  C5, as the code has it. \<open>search_packages\<close> catches no exception. When each of the
  three attempts fails, the \<open>RequestException\<close> of \<open>_make_request\<close> reaches the caller
  of \<open>search_packages\<close>. When a response arrives whose body is a JSON object with a false
  (or no) success flag, \<open>search_packages\<close> returns the empty list.
\<close>

theorem search_packages_failures:
  "(attempt_fails (net 0) \<and> attempt_fails (net 1) \<and> attempt_fails (net 2) \<longrightarrow>
      search_packages net = Inl RequestException) \<and>
   (make_request net MAX_RETRIES = Inr r \<and> body r = Some (JObj kvs) \<and>
      \<not> truthy (dict_get kvs ''success'') \<longrightarrow>
      search_packages net = Inr (JArr []))"
proof -
  have upt: "[0..<nat MAX_RETRIES] = [0, 1, 2]"
    by (simp add: MAX_RETRIES_def upt_rec)
  have "make_request net MAX_RETRIES = Inl RequestException"
    if "attempt_fails (net 0) \<and> attempt_fails (net 1) \<and> attempt_fails (net 2)"
    unfolding make_request_def upt
    using that by (intro request_attempts_all_fail) simp_all
  then show ?thesis
    by (auto simp: search_packages_def)
qed

text \<open>
  C5, witness: the theorem at a portal that cannot be reached, and at one that answers
  \<open>{"success": false}\<close>.
\<close>

theorem search_packages_failures_witness:
  "attempt_fails (net_down 0) \<and> attempt_fails (net_down 1) \<and> attempt_fails (net_down 2) \<and>
   search_packages net_down = Inl RequestException \<and>
   make_request net_refusing MAX_RETRIES = Inr refusal \<and>
   body refusal = Some (JObj [(''success'', JBool False)]) \<and>
   search_packages net_refusing = Inr (JArr [])"
proof -
  have down: "attempt_fails (net_down 0) \<and> attempt_fails (net_down 1) \<and> attempt_fails (net_down 2)"
    by (simp add: attempt_fails_def net_down_def)
  have answer: "make_request net_refusing MAX_RETRIES = Inr refusal"
    by code_simp
  have body: "body refusal = Some (JObj [(''success'', JBool False)])"
    by (simp add: refusal_def)
  have flag: "\<not> truthy (dict_get [(''success'', JBool False)] ''success'')"
    by code_simp
  from search_packages_failures[of net_down] down
    search_packages_failures[of net_refusing refusal "[(''success'', JBool False)]"]
    answer body flag
  show ?thesis
    by simp
qed

text \<open>
  C5, counterexample: the claim says that \<open>search_packages\<close> returns an empty list on a
  network failure. With a portal that cannot be reached it returns nothing: the
  \<open>RequestException\<close> of the last attempt is raised to its caller.
\<close>

theorem search_packages_network_counterexample:
  "search_packages net_down = Inl RequestException"
  by code_simp

end
